theory Spec2Isabelle
  imports Complex_Main
begin

section \<open>Pareto analysis of a spreadsheet export (src/app/api/analyze/route.ts)\<close>

text \<open>
  The analysis engine of the route is embedded function by function: \<open>parseCSV\<close>,
  \<open>performParetoAnalysis\<close>, \<open>generateRecommendations\<close> and the part of \<open>POST\<close> that runs
  once the document text has been fetched.

  Conventions of the embedding.
  \<^item> A JavaScript string is a \<open>string\<close>; every \<open>char\<close> stands for one code unit below 256.
  \<^item> A JavaScript number is a value of the datatype \<open>number\<close>: a finite number with its
    exact real value, \<open>Infinity\<close>, \<open>-Infinity\<close> or \<open>NaN\<close>. Arithmetic follows IEEE 754 on the
    special values, and a finite result whose magnitude reaches the overflow bound of
    binary64 becomes an infinity. Below that bound results are exact: rounding to the
    nearest double, underflow and the sign of zero are not modelled.
  \<^item> An object literal filled by assignments is the list of its own properties in creation
    order; \<open>Object.entries\<close> reorders it as the language prescribes.
  \<^item> The fixed Spanish sentences of the recommendations hold characters outside ASCII, so
    each sentence is a constructor of the datatype \<open>recommendation\<close>; the classification
    labels are ASCII and stay strings.
\<close>

subsection \<open>Numbers\<close>

datatype number = Num real | Infinity | NegInfinity | NaN

text \<open>
  The least magnitude that binary64 rounds to an infinity: the midpoint between the
  largest finite double and \<open>2 ^ 1024\<close>.
\<close>

definition overflowBound :: real where
  "overflowBound = 2 ^ 1024 - 2 ^ 970"

text \<open>The number that holds the result \<open>x\<close> of an operation on finite numbers.\<close>

definition fromReal :: "real \<Rightarrow> number" where
  "fromReal x =
     (if overflowBound \<le> x then Infinity
      else if x \<le> - overflowBound then NegInfinity
      else Num x)"

fun num_neg :: "number \<Rightarrow> number" where
  "num_neg (Num x) = Num (- x)"
| "num_neg Infinity = NegInfinity"
| "num_neg NegInfinity = Infinity"
| "num_neg NaN = NaN"

text \<open>\<open>Math.abs\<close>.\<close>

fun num_abs :: "number \<Rightarrow> number" where
  "num_abs (Num x) = Num \<bar>x\<bar>"
| "num_abs Infinity = Infinity"
| "num_abs NegInfinity = Infinity"
| "num_abs NaN = NaN"

text \<open>\<open>a + b\<close>: infinities of opposite sign give \<open>NaN\<close>.\<close>

fun num_add :: "number \<Rightarrow> number \<Rightarrow> number" where
  "num_add (Num x) (Num y) = fromReal (x + y)"
| "num_add NaN b = NaN"
| "num_add a NaN = NaN"
| "num_add Infinity NegInfinity = NaN"
| "num_add NegInfinity Infinity = NaN"
| "num_add Infinity b = Infinity"
| "num_add a Infinity = Infinity"
| "num_add NegInfinity b = NegInfinity"
| "num_add a NegInfinity = NegInfinity"

text \<open>\<open>a - b\<close>.\<close>

definition num_sub :: "number \<Rightarrow> number \<Rightarrow> number" where
  "num_sub a b = num_add a (num_neg b)"

text \<open>\<open>a * b\<close>: an infinity times zero gives \<open>NaN\<close>.\<close>

fun num_mul :: "number \<Rightarrow> number \<Rightarrow> number" where
  "num_mul (Num x) (Num y) = fromReal (x * y)"
| "num_mul NaN b = NaN"
| "num_mul a NaN = NaN"
| "num_mul (Num x) b = (if x = 0 then NaN else if 0 < x then b else num_neg b)"
| "num_mul a (Num y) = (if y = 0 then NaN else if 0 < y then a else num_neg a)"
| "num_mul Infinity b = b"
| "num_mul NegInfinity b = num_neg b"

text \<open>
  \<open>a / b\<close>: an infinity by an infinity and zero by zero give \<open>NaN\<close>, a finite number by
  an infinity gives zero. A zero divisor is taken as positive; the analysis never divides
  by zero.
\<close>

fun num_div :: "number \<Rightarrow> number \<Rightarrow> number" where
  "num_div (Num x) (Num y) =
     (if y = 0 then (if x = 0 then NaN else if 0 < x then Infinity else NegInfinity)
      else fromReal (x / y))"
| "num_div NaN b = NaN"
| "num_div a NaN = NaN"
| "num_div (Num x) b = Num 0"
| "num_div a (Num y) = (if 0 \<le> y then a else num_neg a)"
| "num_div a b = NaN"

text \<open>\<open>a <= b\<close> and \<open>a < b\<close>: false as soon as one side is \<open>NaN\<close>.\<close>

fun num_le :: "number \<Rightarrow> number \<Rightarrow> bool" where
  "num_le (Num x) (Num y) = (x \<le> y)"
| "num_le NaN b = False"
| "num_le a NaN = False"
| "num_le NegInfinity b = True"
| "num_le a Infinity = True"
| "num_le a b = False"

fun num_lt :: "number \<Rightarrow> number \<Rightarrow> bool" where
  "num_lt (Num x) (Num y) = (x < y)"
| "num_lt NaN b = False"
| "num_lt a NaN = False"
| "num_lt a NegInfinity = False"
| "num_lt Infinity b = False"
| "num_lt a b = True"

subsection \<open>String primitives of the language\<close>

text \<open>White space as \<open>String.prototype.trim\<close> sees it, among the code units below 256.\<close>

definition isWhiteSpace :: "char \<Rightarrow> bool" where
  "isWhiteSpace c = (c \<in> set [CHR 0x09, CHR 0x0A, CHR 0x0B, CHR 0x0C, CHR 0x0D, CHR 0x20, CHR 0xA0])"

definition trim :: "string \<Rightarrow> string" where
  "trim s = rev (dropWhile isWhiteSpace (rev (dropWhile isWhiteSpace s)))"

text \<open>\<open>s.split(d)\<close> for a separator of one character: never empty, \<open>''''\<close> gives \<open>['''']\<close>.\<close>

fun split_str :: "char \<Rightarrow> string \<Rightarrow> string list" where
  "split_str d [] = [[]]"
| "split_str d (c # cs) =
     (if c = d then [] # split_str d cs
      else (case split_str d cs of
              [] \<Rightarrow> [[c]]
            | f # fs \<Rightarrow> (c # f) # fs))"

text \<open>
  \<open>s.replace(/^"|"$/g, '')\<close>: one double quote is removed at the start if there is one, and
  one at the end if there is one left there.
\<close>

definition unquote :: "string \<Rightarrow> string" where
  "unquote s =
     (let s1 = (case s of [] \<Rightarrow> [] | c # cs \<Rightarrow> if c = CHR 0x22 then cs else s)
      in if s1 = [] then s1 else if last s1 = CHR 0x22 then butlast s1 else s1)"

definition isDigit :: "char \<Rightarrow> bool" where
  "isDigit c = (c \<in> set ''0123456789'')"

definition digitValue :: "char \<Rightarrow> nat" where
  "digitValue c = of_char c - 48"

definition digitsValue :: "string \<Rightarrow> nat" where
  "digitsValue ds = foldl (\<lambda>n c. 10 * n + digitValue c) 0 ds"

text \<open>
  \<open>parseFloat\<close> on the strings it receives here, which hold only digits, \<open>.\<close> and \<open>-\<close>: the
  longest prefix made of an optional \<open>-\<close> and then either digits with an optional \<open>.\<close>
  and optional further digits, or a \<open>.\<close> with digits, is converted; what follows is
  dropped, and without such a prefix the result is \<open>NaN\<close>. A numeral beyond the range of
  binary64 gives an infinity.
\<close>

definition parseFloat :: "string \<Rightarrow> number" where
  "parseFloat s =
     (let neg = (case s of [] \<Rightarrow> False | c # cs \<Rightarrow> c = CHR ''-'');
          r = (if neg then tl s else s);
          ip = takeWhile isDigit r;
          r' = dropWhile isDigit r;
          fp = (case r' of [] \<Rightarrow> [] | c # cs \<Rightarrow> if c = CHR ''.'' then takeWhile isDigit cs else [])
      in if ip = [] \<and> fp = [] then NaN
         else fromReal ((if neg then - 1 else 1) *
                        (real (digitsValue ip) + real (digitsValue fp) / 10 ^ length fp)))"

text \<open>The decimal digits of a natural number, as \<open>ToString\<close> writes an integer.\<close>

definition digitChar :: "nat \<Rightarrow> char" where
  "digitChar n = ''0123456789'' ! (n mod 10)"

fun natToString :: "nat \<Rightarrow> string" where
  "natToString n = (if n < 10 then [digitChar n] else natToString (n div 10) @ [digitChar n])"

declare natToString.simps [simp del]

text \<open>
  \<open>x.toFixed(1)\<close> for a finite \<open>x\<close> with \<open>\<bar>x\<bar> < 10 ^ 21\<close>: the integer \<open>n\<close> nearest to
  \<open>10 * \<bar>x\<bar>\<close> (the larger one at a tie), written with at least two digits and a point
  before the last one. The only caller passes a contribution, which is at most 100 when
  it is finite.
\<close>

definition toFixedReal :: "real \<Rightarrow> string" where
  "toFixedReal x =
     (let n = nat \<lfloor>\<bar>x\<bar> * 10 + 1 / 2\<rfloor>;
          m = natToString n;
          m' = (if length m \<le> 1 then replicate (2 - length m) (CHR ''0'') @ m else m);
          k = length m'
      in (if x < 0 then ''-'' else []) @ take (k - 1) m' @ ''.'' @ drop (k - 1) m')"

text \<open>\<open>x.toFixed(1)\<close>: a number that is not finite is written by \<open>ToString\<close>.\<close>

fun toFixed1 :: "number \<Rightarrow> string" where
  "toFixed1 (Num x) = toFixedReal x"
| "toFixed1 Infinity = ''Infinity''"
| "toFixed1 NegInfinity = ''-Infinity''"
| "toFixed1 NaN = ''NaN''"

subsection \<open>Objects\<close>

text \<open>
  A row is an object created as \<open>{}\<close> and filled by \<open>row[header] = value\<close>. Its own
  properties are kept in creation order. Assigning to an existing key replaces the value
  and keeps the position. Assigning a string to the key \<open>__proto__\<close> reaches the setter of
  \<open>Object.prototype\<close>, which ignores a value that is neither an object nor \<open>null\<close>: no
  property is created.
\<close>

type_synonym obj = "(string \<times> string) list"

fun setProperty :: "string \<Rightarrow> string \<Rightarrow> obj \<Rightarrow> obj" where
  "setProperty k v [] = [(k, v)]"
| "setProperty k v ((k', v') # ps) =
     (if k' = k then (k, v) # ps else (k', v') # setProperty k v ps)"

definition assignProperty :: "string \<Rightarrow> string \<Rightarrow> obj \<Rightarrow> obj" where
  "assignProperty k v ob = (if k = ''__proto__'' then ob else setProperty k v ob)"

text \<open>
  An array index is the canonical decimal form of an integer below \<open>2 ^ 32 - 1\<close>.
  \<open>Object.entries\<close> lists the array-index keys first, in ascending numeric order, then the
  other keys in creation order.
\<close>

definition isArrayIndex :: "string \<Rightarrow> bool" where
  "isArrayIndex k =
     (if k = [] then False
      else if list_ex (\<lambda>c. c \<notin> set ''0123456789'') k then False
      else if hd k = CHR ''0'' \<and> length k > 1 then False
      else digitsValue k < 2 ^ 32 - 1)"

definition entries :: "obj \<Rightarrow> (string \<times> string) list" where
  "entries ob =
     sort_key (\<lambda>p. digitsValue (fst p)) (filter (\<lambda>p. isArrayIndex (fst p)) ob)
     @ filter (\<lambda>p. \<not> isArrayIndex (fst p)) ob"

subsection \<open>parseCSV\<close>

text \<open>\<open>v.trim().replace(/^"|"$/g, '')\<close>, applied to every header and every value.\<close>

definition cell :: "string \<Rightarrow> string" where
  "cell v = unquote (trim v)"

text \<open>The lines that survive \<open>filter(line => line.trim())\<close>.\<close>

definition dataLines :: "string \<Rightarrow> string list" where
  "dataLines csvText = filter (\<lambda>line. trim line \<noteq> []) (split_str (CHR 0x0A) csvText)"

text \<open>
  The body of the \<open>forEach\<close> over the headers: \<open>values[index] || ''\<close> is the value at
  \<open>index\<close>, and the empty string past the end of a short line.
\<close>

definition makeRow :: "string list \<Rightarrow> string list \<Rightarrow> obj" where
  "makeRow headers values =
     foldl (\<lambda>row (index, header).
              assignProperty header (if index < length values then values ! index else []) row)
           [] (enumerate 0 headers)"

definition parseCSV :: "string \<Rightarrow> obj list" where
  "parseCSV csvText =
     (case dataLines csvText of
        [] \<Rightarrow> []
      | l0 # rest \<Rightarrow>
          (let headers = map cell (split_str (CHR '','') l0)
           in map (\<lambda>line. makeRow headers (map cell (split_str (CHR '','') line))) rest))"

subsection \<open>performParetoAnalysis\<close>

text \<open>The object built for every row by the first \<open>map\<close> (lines 95 to 113).\<close>

record row_with_values =
  rv_rowNumber :: nat
  rv_data :: obj
  rv_totalValue :: number
  rv_numericValues :: "number list"

text \<open>\<open>String(value).replace(/[^0-9.-]/g, '')\<close>.\<close>

definition stripNonNumeric :: "string \<Rightarrow> string" where
  "stripNonNumeric v = filter (\<lambda>c. isDigit c \<or> c = CHR ''.'' \<or> c = CHR ''-'') v"

text \<open>
  The loop over \<open>Object.entries(row)\<close>, with its two accumulators \<open>totalValue\<close> and
  \<open>numericValues\<close>; \<open>isNaN(numValue)\<close> is \<open>numValue = NaN\<close>.
\<close>

definition valueStep ::
    "number \<times> number list \<Rightarrow> string \<times> string \<Rightarrow> number \<times> number list" where
  "valueStep acc kv =
     (let numValue = parseFloat (stripNonNumeric (snd kv))
      in if numValue = NaN then acc
         else (num_add (fst acc) (num_abs numValue), snd acc @ [numValue]))"

definition valueRow :: "nat \<Rightarrow> obj \<Rightarrow> row_with_values" where
  "valueRow index row =
     (let acc = foldl valueStep (Num 0, []) (entries row)
      in \<lparr>rv_rowNumber = index + 1, rv_data = row,
          rv_totalValue = fst acc, rv_numericValues = snd acc\<rparr>)"

text \<open>
  \<open>Array.prototype.sort\<close> with a comparison function. The language requires the sort to
  be stable, so for a consistent comparison the result is the one of any stable sort:
  here insertion from the right, an element going before the first one it does not
  exceed. The sort reads a comparison value \<open>NaN\<close> as \<open>+0\<close>; \<open>notAfter v\<close> says that the
  value \<open>v\<close> of \<open>cmp a b\<close> does not put \<open>a\<close> after \<open>b\<close>.
\<close>

definition notAfter :: "number \<Rightarrow> bool" where
  "notAfter v = (if v = NaN then True else num_le v (Num 0))"

fun insertBy :: "('a \<Rightarrow> 'a \<Rightarrow> number) \<Rightarrow> 'a \<Rightarrow> 'a list \<Rightarrow> 'a list" where
  "insertBy cmp a [] = [a]"
| "insertBy cmp a (b # bs) =
     (if notAfter (cmp a b) then a # b # bs else b # insertBy cmp a bs)"

definition sortBy :: "('a \<Rightarrow> 'a \<Rightarrow> number) \<Rightarrow> 'a list \<Rightarrow> 'a list" where
  "sortBy cmp xs = foldr (insertBy cmp) xs []"

text \<open>The sentences pushed by \<open>generateRecommendations\<close>, in the order of the source:
  \<^item> \<open>CriticalLine p\<close>: "Esta linea es critica: representa el p% del valor total";
  \<^item> \<open>PrioritizeResources\<close>: "Priorizar recursos y atencion inmediata en este elemento";
  \<^item> \<open>ContinuousTracking\<close>: "Implementar seguimiento continuo y metricas de rendimiento";
  \<^item> \<open>SeekOptimization\<close>: "Buscar oportunidades de optimizacion para maximizar el retorno";
  \<^item> \<open>Contributes p\<close>: "Contribuye con p% del valor total";
  \<^item> \<open>RegularTracking\<close>: "Mantener seguimiento regular y considerar para optimizacion
    secundaria";
  \<^item> \<open>EvaluatePromotion\<close>: "Evaluar si puede mejorarse para entrar en el grupo de alta
    prioridad";
  \<^item> \<open>LimitedImpact p\<close>: "Impacto limitado: p% del valor total";
  \<^item> \<open>ConsiderAutomation\<close>: "Considerar automatizacion o simplificacion de procesos";
  \<^item> \<open>EvaluateResources\<close>: "Evaluar si los recursos asignados son proporcionales al impacto";
  \<^item> \<open>Top20\<close>: "(star) Top 20%: Este elemento es de los mas valiosos del conjunto".
\<close>

datatype recommendation =
    CriticalLine string
  | PrioritizeResources
  | ContinuousTracking
  | SeekOptimization
  | Contributes string
  | RegularTracking
  | EvaluatePromotion
  | LimitedImpact string
  | ConsiderAutomation
  | EvaluateResources
  | Top20

definition generateRecommendations ::
    "row_with_values \<Rightarrow> string \<Rightarrow> number \<Rightarrow> number \<Rightarrow> recommendation list" where
  "generateRecommendations row classification contribution cumulativePercentage =
     (let recommendations =
            (if classification = ''Alta Prioridad'' then
               [CriticalLine (toFixed1 contribution), PrioritizeResources, ContinuousTracking]
               @ (if num_lt (Num 0) (rv_totalValue row) then [SeekOptimization] else [])
             else if classification = ''Media Prioridad'' then
               [Contributes (toFixed1 contribution), RegularTracking, EvaluatePromotion]
             else
               [LimitedImpact (toFixed1 contribution), ConsiderAutomation, EvaluateResources])
      in if num_le cumulativePercentage (Num 20) then recommendations @ [Top20]
         else recommendations)"

text \<open>
  Lines 128 to 137: the label starts as \<open>Baja Prioridad\<close> and the score as the
  contribution; both are overwritten under the two guards.
\<close>

definition classify :: "number \<Rightarrow> number \<Rightarrow> string \<times> number" where
  "classify contribution cumulativePercentage =
     (if num_le cumulativePercentage (Num 80)
      then (''Alta Prioridad'', num_add contribution (Num 30))
      else if num_le cumulativePercentage (Num 95)
      then (''Media Prioridad'', num_add contribution (Num 15))
      else (''Baja Prioridad'', contribution))"

record metrics =
  totalValue :: number
  cumulativePercentage :: number
  contribution :: number

record RowAnalysis =
  rowNumber :: nat
  data :: obj
  paretoScore :: number
  classification :: string
  metrics :: metrics
  recommendations :: "recommendation list"

record summary =
  totalRows :: nat
  highPriority :: nat
  mediumPriority :: nat
  lowPriority :: nat
  grandTotalValue :: number

record AnalysisResult =
  summary :: summary
  rowAnalyses :: "RowAnalysis list"
  paretoThreshold :: number

text \<open>
  The callback of the second \<open>map\<close> (lines 122 to 159), given the value of
  \<open>cumulativeValue\<close> after its first statement.
\<close>

definition analyseRow :: "number \<Rightarrow> number \<Rightarrow> row_with_values \<Rightarrow> RowAnalysis" where
  "analyseRow grandTotal cumulativeValue row =
     (let contrib = (if num_lt (Num 0) grandTotal
                     then num_mul (num_div (rv_totalValue row) grandTotal) (Num 100)
                     else Num 0);
          cumPct = (if num_lt (Num 0) grandTotal
                    then num_mul (num_div cumulativeValue grandTotal) (Num 100)
                    else Num 0);
          cls = classify contrib cumPct
      in \<lparr>rowNumber = rv_rowNumber row,
          data = rv_data row,
          paretoScore = snd cls,
          classification = fst cls,
          metrics = \<lparr>totalValue = rv_totalValue row,
                     cumulativePercentage = cumPct,
                     contribution = contrib\<rparr>,
          recommendations = generateRecommendations row (fst cls) contrib cumPct\<rparr>)"

text \<open>The second \<open>map\<close>, threading the variable \<open>cumulativeValue\<close> through the rows.\<close>

fun analyseRows :: "number \<Rightarrow> number \<Rightarrow> row_with_values list \<Rightarrow> RowAnalysis list" where
  "analyseRows grandTotal cumulativeValue [] = []"
| "analyseRows grandTotal cumulativeValue (row # rest) =
     analyseRow grandTotal (num_add cumulativeValue (rv_totalValue row)) row
     # analyseRows grandTotal (num_add cumulativeValue (rv_totalValue row)) rest"

definition rowsWithValues :: "obj list \<Rightarrow> row_with_values list" where
  "rowsWithValues rows = map (\<lambda>(index, row). valueRow index row) (enumerate 0 rows)"

definition sortedRows :: "obj list \<Rightarrow> row_with_values list" where
  "sortedRows rows =
     sortBy (\<lambda>a b. num_sub (rv_totalValue b) (rv_totalValue a)) (rowsWithValues rows)"

definition grandTotalOf :: "row_with_values list \<Rightarrow> number" where
  "grandTotalOf rs = foldl (\<lambda>sum row. num_add sum (rv_totalValue row)) (Num 0) rs"

definition countClass :: "string \<Rightarrow> RowAnalysis list \<Rightarrow> nat" where
  "countClass label ras = length (filter (\<lambda>r. classification r = label) ras)"

definition performParetoAnalysis :: "obj list \<Rightarrow> AnalysisResult" where
  "performParetoAnalysis rows =
     (let rs = sortedRows rows;
          grandTotal = grandTotalOf rs;
          ras = analyseRows grandTotal (Num 0) rs
      in \<lparr>summary = \<lparr>totalRows = length ras,
                      highPriority = countClass ''Alta Prioridad'' ras,
                      mediumPriority = countClass ''Media Prioridad'' ras,
                      lowPriority = countClass ''Baja Prioridad'' ras,
                      grandTotalValue = grandTotal\<rparr>,
          rowAnalyses = ras,
          paretoThreshold = Num 80\<rparr>)"

subsection \<open>The core of POST\<close>

text \<open>
  Lines 55 to 64, from the fetched text on. \<open>EmptyInput\<close> is the error thrown with the
  message "La hoja de calculo esta vacia"; the handler turns it into a response of
  status 500.
\<close>

datatype error = EmptyInput

definition analyzeText :: "string \<Rightarrow> error + AnalysisResult" where
  "analyzeText csvText =
     (let rows = parseCSV csvText
      in if length rows = 0 then Inl EmptyInput else Inr (performParetoAnalysis rows))"

subsection \<open>Notions used in the statements\<close>

text \<open>
  A weight is a number that the valuation of a row can produce: a finite number that is
  not negative, or \<open>Infinity\<close>. Its magnitude is its value, with the overflow bound
  standing for \<open>Infinity\<close>.
\<close>

fun isWeight :: "number \<Rightarrow> bool" where
  "isWeight (Num x) = (0 \<le> x \<and> x < overflowBound)"
| "isWeight Infinity = True"
| "isWeight NegInfinity = False"
| "isWeight NaN = False"

fun mag :: "number \<Rightarrow> real" where
  "mag (Num x) = x"
| "mag Infinity = overflowBound"
| "mag NegInfinity = 0"
| "mag NaN = 0"

text \<open>
  The sum of a list of weights: the exact sum of the values when all are finite and the
  sum stays below the overflow bound, \<open>Infinity\<close> otherwise.
\<close>

definition sumOfWeights :: "number list \<Rightarrow> number" where
  "sumOfWeights ws =
     (if list_all (\<lambda>w. w \<noteq> Infinity) ws \<and> sum_list (map mag ws) < overflowBound
      then Num (sum_list (map mag ws))
      else Infinity)"

text \<open>The running sums of a list of reals, from a starting value.\<close>

fun running :: "real \<Rightarrow> real list \<Rightarrow> real list" where
  "running c [] = []"
| "running c (w # ws) = (c + w) # running (c + w) ws"

section \<open>Evaluation rules and auxiliary facts\<close>

subsection \<open>Numbers\<close>

lemma overflowBound_gt: "1000000 < overflowBound"
  by (simp add: overflowBound_def)

lemma fromReal_Num: "- overflowBound < x \<Longrightarrow> x < overflowBound \<Longrightarrow> fromReal x = Num x"
  by (simp add: fromReal_def)

lemma fromReal_small: "\<bar>x\<bar> \<le> 1000000 \<Longrightarrow> fromReal x = Num x"
  using overflowBound_gt by (intro fromReal_Num) simp_all

lemma fromReal_cases:
  "fromReal x = Infinity \<or> fromReal x = NegInfinity
   \<or> (fromReal x = Num x \<and> - overflowBound < x \<and> x < overflowBound)"
  by (simp add: fromReal_def)

lemma isWeight_cases:
  "isWeight w \<Longrightarrow> w = Infinity \<or> (\<exists>x. w = Num x \<and> 0 \<le> x \<and> x < overflowBound)"
  by (cases w) simp_all

lemma isWeight_abs_fromReal: "isWeight (num_abs (fromReal x))"
  using fromReal_cases [of x] by auto

lemma isWeight_add: "isWeight a \<Longrightarrow> isWeight b \<Longrightarrow> isWeight (num_add a b)"
  by (cases a; cases b) (simp_all add: fromReal_def)

lemma mag_nonneg: "isWeight w \<Longrightarrow> 0 \<le> mag w"
  using overflowBound_gt by (cases w) simp_all

lemma mag_inject: "isWeight a \<Longrightarrow> isWeight b \<Longrightarrow> mag a = mag b \<Longrightarrow> a = b"
  by (cases a; cases b) simp_all

lemma num_le_weights: "isWeight a \<Longrightarrow> isWeight b \<Longrightarrow> num_le a b = (mag a \<le> mag b)"
  by (cases a; cases b) auto

lemma notAfter_weights:
  "isWeight a \<Longrightarrow> isWeight b \<Longrightarrow> notAfter (num_sub b a) = (mag b \<le> mag a)"
  by (cases a; cases b) (auto simp: notAfter_def num_sub_def fromReal_def)

subsection \<open>The sort is the stable insertion sort of the library\<close>

lemma insertBy_insort_key:
  assumes "isWeight (f a)" and "\<forall>x \<in> set xs. isWeight (f x)"
  shows "insertBy (\<lambda>a b. num_sub (f b) (f a)) a xs = insort_key (\<lambda>r. - mag (f r)) a xs"
  using assms by (induction xs) (simp_all add: notAfter_weights)

lemma sortBy_sort_key:
  assumes "\<forall>x \<in> set xs. isWeight (f x)"
  shows "sortBy (\<lambda>a b. num_sub (f b) (f a)) xs = sort_key (\<lambda>r. - mag (f r)) xs"
  using assms
proof (induction xs)
  case Nil
  then show ?case by (simp add: sortBy_def)
next
  case (Cons x xs)
  then have IH: "sortBy (\<lambda>a b. num_sub (f b) (f a)) xs = sort_key (\<lambda>r. - mag (f r)) xs"
    by simp
  have "sortBy (\<lambda>a b. num_sub (f b) (f a)) (x # xs)
      = insertBy (\<lambda>a b. num_sub (f b) (f a)) x (sort_key (\<lambda>r. - mag (f r)) xs)"
    using IH by (simp add: sortBy_def)
  also have "\<dots> = insort_key (\<lambda>r. - mag (f r)) x (sort_key (\<lambda>r. - mag (f r)) xs)"
    using Cons.prems by (intro insertBy_insort_key) simp_all
  finally show ?case by simp
qed

subsection \<open>The valuation of a row\<close>

lemma NaN_or_fromReal:
  "(if c then NaN else fromReal t) = NaN \<or> (\<exists>x. (if c then NaN else fromReal t) = fromReal x)"
  by auto

lemma parseFloat_cases: "parseFloat s = NaN \<or> (\<exists>x. parseFloat s = fromReal x)"
  unfolding parseFloat_def Let_def by (rule NaN_or_fromReal)

lemma isWeight_abs_parseFloat: "parseFloat s \<noteq> NaN \<Longrightarrow> isWeight (num_abs (parseFloat s))"
  using parseFloat_cases [of s] isWeight_abs_fromReal by auto

text \<open>The numbers a row converts to, in the order of its entries.\<close>

lemma snd_foldl_valueStep:
  "snd (foldl valueStep acc es) =
     snd acc @ filter (\<lambda>x. x \<noteq> NaN) (map (\<lambda>kv. parseFloat (stripNonNumeric (snd kv))) es)"
  by (induction es arbitrary: acc) (simp_all add: valueStep_def Let_def)

lemma fst_foldl_valueStep:
  "fst (foldl valueStep acc es) =
     foldl num_add (fst acc)
       (map num_abs (filter (\<lambda>x. x \<noteq> NaN) (map (\<lambda>kv. parseFloat (stripNonNumeric (snd kv))) es)))"
  by (induction es arbitrary: acc) (simp_all add: valueStep_def Let_def)

lemma foldl_add_Infinity:
  "\<forall>w \<in> set ws. isWeight w \<Longrightarrow> foldl num_add Infinity ws = Infinity"
proof (induction ws)
  case Nil
  then show ?case by simp
next
  case (Cons w ws)
  then have "isWeight w" by simp
  then have "num_add Infinity w = Infinity" by (cases w) simp_all
  with Cons show ?case by simp
qed

lemma foldl_add_weights:
  assumes "0 \<le> a" and "a < overflowBound" and "\<forall>w \<in> set ws. isWeight w"
  shows "foldl num_add (Num a) ws =
     (if list_all (\<lambda>w. w \<noteq> Infinity) ws \<and> a + sum_list (map mag ws) < overflowBound
      then Num (a + sum_list (map mag ws)) else Infinity)"
  using assms
proof (induction ws arbitrary: a)
  case Nil
  then show ?case by simp
next
  case (Cons w ws)
  have rest: "\<forall>w \<in> set ws. isWeight w" using Cons.prems by simp
  have nn: "0 \<le> sum_list (map mag ws)"
    by (rule sum_list_nonneg) (use rest mag_nonneg in auto)
  from Cons.prems have "isWeight w" by simp
  then consider "w = Infinity" | x where "w = Num x" "0 \<le> x" "x < overflowBound"
    using isWeight_cases by blast
  then show ?case
  proof cases
    case 1
    then show ?thesis using foldl_add_Infinity [OF rest] by simp
  next
    case 2
    show ?thesis
    proof (cases "a + x < overflowBound")
      case True
      then have "num_add (Num a) w = Num (a + x)"
        using 2 Cons.prems(1) by (simp add: fromReal_def)
      moreover have "0 \<le> a + x" using 2 Cons.prems(1) by simp
      ultimately show ?thesis
        using Cons.IH [OF _ True rest] 2 by (simp add: add.assoc)
    next
      case False
      then have "num_add (Num a) w = Infinity"
        using 2 by (simp add: fromReal_def)
      moreover have "\<not> a + (mag w + sum_list (map mag ws)) < overflowBound"
        using False nn 2 by simp
      ultimately show ?thesis
        using foldl_add_Infinity [OF rest] by simp
    qed
  qed
qed

lemma foldl_add_sumOfWeights:
  "\<forall>w \<in> set ws. isWeight w \<Longrightarrow> foldl num_add (Num 0) ws = sumOfWeights ws"
  using foldl_add_weights [of 0 ws] overflowBound_gt by (simp add: sumOfWeights_def)

lemma isWeight_sumOfWeights: "\<forall>w \<in> set ws. isWeight w \<Longrightarrow> isWeight (sumOfWeights ws)"
proof -
  assume w: "\<forall>w \<in> set ws. isWeight w"
  have "0 \<le> sum_list (map mag ws)"
    by (rule sum_list_nonneg) (use w mag_nonneg in auto)
  then show ?thesis by (simp add: sumOfWeights_def)
qed

lemma converted_weights:
  "\<forall>w \<in> set (map num_abs (filter (\<lambda>x. x \<noteq> NaN)
       (map (\<lambda>kv. parseFloat (stripNonNumeric (snd kv))) es))). isWeight w"
  using isWeight_abs_parseFloat by auto

lemma rv_numericValues_valueRow:
  "rv_numericValues (valueRow index row) =
     filter (\<lambda>x. x \<noteq> NaN) (map (\<lambda>kv. parseFloat (stripNonNumeric (snd kv))) (entries row))"
  by (simp add: valueRow_def Let_def snd_foldl_valueStep)

lemma rv_totalValue_valueRow:
  "rv_totalValue (valueRow index row) =
     sumOfWeights (map num_abs (filter (\<lambda>x. x \<noteq> NaN)
       (map (\<lambda>kv. parseFloat (stripNonNumeric (snd kv))) (entries row))))"
  by (simp add: valueRow_def Let_def fst_foldl_valueStep
        foldl_add_sumOfWeights [OF converted_weights])

lemma isWeight_valueRow: "isWeight (rv_totalValue (valueRow index row))"
  unfolding rv_totalValue_valueRow
  by (rule isWeight_sumOfWeights [OF converted_weights])

subsection \<open>Rows, their numbers and the total\<close>

lemmas parse_eval = parseCSV_def dataLines_def trim_def isWhiteSpace_def cell_def unquote_def
  makeRow_def assignProperty_def enumerate_eq_zip upt_rec

lemmas value_eval = entries_def isArrayIndex_def valueRow_def valueStep_def stripNonNumeric_def
  isDigit_def parseFloat_def digitsValue_def digitValue_def rowsWithValues_def enumerate_eq_zip
  upt_rec sortedRows_def sortBy_def notAfter_def num_sub_def fromReal_small Let_def

lemmas analyse_eval = grandTotalOf_def analyseRow_def classify_def fromReal_small Let_def

lemma rv_data_valueRow [simp]: "rv_data (valueRow i row) = row"
  by (simp add: valueRow_def Let_def)

lemma rv_rowNumber_valueRow [simp]: "rv_rowNumber (valueRow i row) = Suc i"
  by (simp add: valueRow_def Let_def)

lemma length_rowsWithValues [simp]: "length (rowsWithValues rows) = length rows"
  by (simp add: rowsWithValues_def)

lemma rowsWithValues_nth:
  "rowsWithValues rows = map (\<lambda>i. valueRow i (rows ! i)) [0..<length rows]"
  by (rule nth_equalityI) (simp_all add: rowsWithValues_def nth_enumerate_eq)

lemma in_rowsWithValues:
  assumes "r \<in> set (rowsWithValues rows)"
  shows "1 \<le> rv_rowNumber r \<and> rv_rowNumber r \<le> length rows
       \<and> r = valueRow (rv_rowNumber r - 1) (rows ! (rv_rowNumber r - 1))"
proof -
  from assms obtain i where i: "i < length rows" "r = valueRow i (rows ! i)"
    unfolding rowsWithValues_nth by auto
  have "rv_rowNumber r = i + 1" by (simp add: i)
  with i show ?thesis by simp
qed

lemma rowNumbers_rowsWithValues:
  "map rv_rowNumber (rowsWithValues rows) = [1..<Suc (length rows)]"
  by (simp add: rowsWithValues_nth map_Suc_upt o_def)

lemma isWeight_rowsWithValues:
  "\<forall>r \<in> set (rowsWithValues rows). isWeight (rv_totalValue r)"
  using in_rowsWithValues isWeight_valueRow by metis

lemma sortedRows_sort_key:
  "sortedRows rows = sort_key (\<lambda>r. - mag (rv_totalValue r)) (rowsWithValues rows)"
  unfolding sortedRows_def by (rule sortBy_sort_key [OF isWeight_rowsWithValues])

lemma length_sortedRows [simp]: "length (sortedRows rows) = length rows"
  by (simp add: sortedRows_sort_key)

lemma set_sortedRows [simp]: "set (sortedRows rows) = set (rowsWithValues rows)"
  by (simp add: sortedRows_sort_key)

lemma isWeight_sortedRows: "\<forall>r \<in> set (sortedRows rows). isWeight (rv_totalValue r)"
  using isWeight_rowsWithValues by simp

lemma grandTotalOf_sumOfWeights:
  assumes "\<forall>r \<in> set rs. isWeight (rv_totalValue r)"
  shows "grandTotalOf rs = sumOfWeights (map rv_totalValue rs)"
proof -
  have "foldl (\<lambda>sum row. num_add sum (rv_totalValue row)) a rs
      = foldl num_add a (map rv_totalValue rs)" for a
    by (induction rs arbitrary: a) simp_all
  then show ?thesis
    using assms by (simp add: grandTotalOf_def foldl_add_sumOfWeights)
qed

lemma scenarioA_rows:
  "parseCSV ''name,val\<newline>A,10\<newline>B,90'' =
     [[(''name'', ''A''), (''val'', ''10'')], [(''name'', ''B''), (''val'', ''90'')]]"
  by (simp add: parse_eval)

lemma scenarioA_sorted:
  "sortedRows [[(''name'', ''A''), (''val'', ''10'')], [(''name'', ''B''), (''val'', ''90'')]] =
     [\<lparr>rv_rowNumber = 2, rv_data = [(''name'', ''B''), (''val'', ''90'')],
        rv_totalValue = Num 90, rv_numericValues = [Num 90]\<rparr>,
      \<lparr>rv_rowNumber = 1, rv_data = [(''name'', ''A''), (''val'', ''10'')],
        rv_totalValue = Num 10, rv_numericValues = [Num 10]\<rparr>]"
  by (simp add: value_eval)

lemma rowAnalyses_performParetoAnalysis:
  "rowAnalyses (performParetoAnalysis rows) =
     analyseRows (grandTotalOf (sortedRows rows)) (Num 0) (sortedRows rows)"
  by (simp add: performParetoAnalysis_def Let_def)

lemma grandTotalValue_performParetoAnalysis:
  "grandTotalValue (summary (performParetoAnalysis rows)) = grandTotalOf (sortedRows rows)"
  by (simp add: performParetoAnalysis_def Let_def)

lemma scenarioA_analyses:
  "rowAnalyses (performParetoAnalysis
     [[(''name'', ''A''), (''val'', ''10'')], [(''name'', ''B''), (''val'', ''90'')]]) =
     [\<lparr>rowNumber = 2, data = [(''name'', ''B''), (''val'', ''90'')],
        paretoScore = Num 105, classification = ''Media Prioridad'',
        metrics = \<lparr>totalValue = Num 90, cumulativePercentage = Num 90, contribution = Num 90\<rparr>,
        recommendations = [Contributes (toFixed1 (Num 90)), RegularTracking, EvaluatePromotion]\<rparr>,
      \<lparr>rowNumber = 1, data = [(''name'', ''A''), (''val'', ''10'')],
        paretoScore = Num 10, classification = ''Baja Prioridad'',
        metrics = \<lparr>totalValue = Num 10, cumulativePercentage = Num 100, contribution = Num 10\<rparr>,
        recommendations = [LimitedImpact (toFixed1 (Num 10)), ConsiderAutomation, EvaluateResources]\<rparr>]"
  by (simp add: rowAnalyses_performParetoAnalysis scenarioA_sorted analyse_eval
        generateRecommendations_def)

lemma toFixedReal_examples:
  "toFixedReal 90 = ''90.0''" "toFixedReal 10 = ''10.0''" "toFixedReal 0 = ''0.0''"
  "toFixedReal (100 / 3) = ''33.3''" "toFixedReal (1 / 20) = ''0.1''"
  by (simp_all add: toFixedReal_def natToString.simps digitChar_def Let_def)

subsection \<open>The second pass over the sorted rows\<close>

lemma length_analyseRows [simp]: "length (analyseRows g c rs) = length rs"
  by (induction rs arbitrary: c) simp_all

lemma analyseRows_rowNumber: "map rowNumber (analyseRows g c rs) = map rv_rowNumber rs"
  by (induction rs arbitrary: c) (simp_all add: analyseRow_def Let_def)

lemma analyseRows_totalValue:
  "map (\<lambda>e. totalValue (metrics e)) (analyseRows g c rs) = map rv_totalValue rs"
  by (induction rs arbitrary: c) (simp_all add: analyseRow_def Let_def)

lemma nth_analyseRows_rowNumber:
  "i < length rs \<Longrightarrow> rowNumber (analyseRows g c rs ! i) = rv_rowNumber (rs ! i)"
  using analyseRows_rowNumber [of g c rs] by (metis length_analyseRows nth_map)

lemma nth_analyseRows_totalValue:
  "i < length rs \<Longrightarrow> totalValue (metrics (analyseRows g c rs ! i)) = rv_totalValue (rs ! i)"
  using analyseRows_totalValue [of g c rs]
  by (metis (no_types, lifting) length_analyseRows nth_map)

lemma in_analyseRows:
  "e \<in> set (analyseRows g c rs) \<Longrightarrow> \<exists>c' row. row \<in> set rs \<and> e = analyseRow g c' row"
proof (induction rs arbitrary: c)
  case Nil
  then show ?case by simp
next
  case (Cons r rs)
  from Cons.prems have "e = analyseRow g (num_add c (rv_totalValue r)) r
      \<or> e \<in> set (analyseRows g (num_add c (rv_totalValue r)) rs)"
    by simp
  then show ?case
  proof
    assume "e = analyseRow g (num_add c (rv_totalValue r)) r"
    then show ?thesis by auto
  next
    assume "e \<in> set (analyseRows g (num_add c (rv_totalValue r)) rs)"
    from Cons.IH [OF this] show ?thesis by auto
  qed
qed

lemma in_analyseRows_fields:
  assumes "e \<in> set (analyseRows g c rs)"
  shows "\<exists>r \<in> set rs. rowNumber e = rv_rowNumber r \<and> data e = rv_data r
           \<and> totalValue (metrics e) = rv_totalValue r"
proof -
  from in_analyseRows [OF assms] obtain c' row where "row \<in> set rs" "e = analyseRow g c' row"
    by blast
  then show ?thesis by (auto simp: analyseRow_def Let_def)
qed

lemma recommendations_analyseRow:
  "recommendations (analyseRow g c row) =
     generateRecommendations row (classification (analyseRow g c row))
       (contribution (metrics (analyseRow g c row)))
       (cumulativePercentage (metrics (analyseRow g c row)))
   \<and> totalValue (metrics (analyseRow g c row)) = rv_totalValue row"
  by (simp add: analyseRow_def Let_def)

lemma add_zero_fromReal: "num_add (fromReal y) (Num 0) = fromReal y"
  by (simp add: fromReal_def)

lemma add_zero_share: "num_add (num_mul a (Num 100)) (Num 0) = num_mul a (Num 100)"
  by (cases a) (simp_all add: add_zero_fromReal)

lemma add_zero_contribution:
  "num_add (contribution (metrics (analyseRow g c row))) (Num 0)
     = contribution (metrics (analyseRow g c row))"
  by (simp add: analyseRow_def Let_def add_zero_share fromReal_small)

subsection \<open>Shares under a finite total\<close>

lemma share_finite:
  assumes "0 \<le> a" and "a \<le> g" and "0 < g"
  shows "num_mul (num_div (Num a) (Num g)) (Num 100) = Num (a / g * 100)"
proof -
  define q where "q = a / g"
  have q: "0 \<le> q" "q \<le> 1" using assms by (simp_all add: q_def)
  then have "fromReal q = Num q" by (intro fromReal_small) simp
  moreover have "fromReal (q * 100) = Num (q * 100)"
    using q by (intro fromReal_small) simp
  ultimately have "num_mul (fromReal q) (Num 100) = Num (q * 100)" by simp
  moreover have "num_div (Num a) (Num g) = fromReal q" using assms(3) by (simp add: q_def)
  ultimately show ?thesis by (simp only: q_def)
qed

lemma sum_list_shares:
  fixes g :: real
  shows "(\<Sum>r\<leftarrow>rs. f r / g * 100) = (\<Sum>r\<leftarrow>rs. f r) / g * 100"
  by (induction rs) (simp_all add: add_divide_distrib distrib_right)

lemma length_running [simp]: "length (running c ws) = length ws"
  by (induction ws arbitrary: c) simp_all

lemma running_lower: "\<forall>w \<in> set ws. 0 \<le> w \<Longrightarrow> s \<in> set (running c ws) \<Longrightarrow> c \<le> s"
proof (induction ws arbitrary: c)
  case Nil
  then show ?case by simp
next
  case (Cons w ws)
  have w0: "0 \<le> w" using Cons.prems(1) by simp
  from Cons.prems(2) have "s = c + w \<or> s \<in> set (running (c + w) ws)" by simp
  then show ?case
  proof
    assume "s = c + w"
    with w0 show ?thesis by simp
  next
    assume "s \<in> set (running (c + w) ws)"
    with Cons.IH [of "c + w"] Cons.prems(1) have "c + w \<le> s" by simp
    with w0 show ?thesis by simp
  qed
qed

lemma sorted_running: "\<forall>w \<in> set ws. 0 \<le> w \<Longrightarrow> sorted (running c ws)"
proof (induction ws arbitrary: c)
  case Nil
  then show ?case by simp
next
  case (Cons w ws)
  have rest: "\<forall>w \<in> set ws. 0 \<le> w" using Cons.prems by simp
  have "c + w \<le> s" if "s \<in> set (running (c + w) ws)" for s
    using running_lower [OF rest that] .
  with Cons.IH [OF rest, of "c + w"] show ?case by auto
qed

lemma last_running: "ws \<noteq> [] \<Longrightarrow> last (running c ws) = c + sum_list ws"
proof (induction ws arbitrary: c)
  case Nil
  then show ?case by simp
next
  case (Cons w ws)
  show ?case
  proof (cases "ws = []")
    case True
    then show ?thesis by simp
  next
    case False
    then have "running (c + w) ws \<noteq> []" by (cases ws) simp_all
    with Cons.IH [OF False, of "c + w"] show ?thesis by (simp add: add.assoc)
  qed
qed

lemma analyseRows_finite:
  assumes "\<forall>r \<in> set rs. \<exists>x. rv_totalValue r = Num x \<and> 0 \<le> x"
    and "0 \<le> c" and "c + (\<Sum>r\<leftarrow>rs. mag (rv_totalValue r)) \<le> g"
    and "0 < g" and "g < overflowBound"
  shows "map (\<lambda>e. contribution (metrics e)) (analyseRows (Num g) (Num c) rs)
           = map (\<lambda>r. Num (mag (rv_totalValue r) / g * 100)) rs
       \<and> map (\<lambda>e. cumulativePercentage (metrics e)) (analyseRows (Num g) (Num c) rs)
           = map (\<lambda>s. Num (s / g * 100)) (running c (map (\<lambda>r. mag (rv_totalValue r)) rs))"
  using assms
proof (induction rs arbitrary: c)
  case Nil
  then show ?case by simp
next
  case (Cons r rs)
  from Cons.prems(1) obtain x where x: "rv_totalValue r = Num x" "0 \<le> x" by auto
  have rest: "\<forall>r \<in> set rs. \<exists>x. rv_totalValue r = Num x \<and> 0 \<le> x" using Cons.prems(1) by simp
  have nn: "0 \<le> (\<Sum>r\<leftarrow>rs. mag (rv_totalValue r))"
    by (rule sum_list_nonneg) (use rest in auto)
  have cx: "0 \<le> c + x" "c + x \<le> g" "x \<le> g"
    using Cons.prems(2,3) x nn by simp_all
  have step: "fromReal (c + x) = Num (c + x)"
    using cx Cons.prems(5) by (simp add: fromReal_def)
  have bound: "(c + x) + (\<Sum>r\<leftarrow>rs. mag (rv_totalValue r)) \<le> g"
    using Cons.prems(3) x by simp
  have first: "contribution (metrics (analyseRow (Num g) (Num (c + x)) r)) = Num (x / g * 100)
      \<and> cumulativePercentage (metrics (analyseRow (Num g) (Num (c + x)) r))
          = Num ((c + x) / g * 100)"
    using share_finite [OF x(2) cx(3) Cons.prems(4)] share_finite [OF cx(1,2) Cons.prems(4)]
      Cons.prems(4) x by (simp add: analyseRow_def Let_def)
  from Cons.IH [OF rest cx(1) bound Cons.prems(4,5)] first show ?case
    by (simp add: step x)
qed

lemma analyseRows_zero_total:
  assumes "e \<in> set (analyseRows (Num 0) c rs)"
  shows "contribution (metrics e) = Num 0 \<and> cumulativePercentage (metrics e) = Num 0
       \<and> classification e = ''Alta Prioridad'' \<and> paretoScore e = Num 30"
proof -
  from in_analyseRows [OF assms] obtain c' row where "e = analyseRow (Num 0) c' row" by blast
  then show ?thesis by (simp add: analyseRow_def classify_def Let_def fromReal_small)
qed

lemma sorted_wrt_all:
  "(\<And>x y. x \<in> set xs \<Longrightarrow> y \<in> set xs \<Longrightarrow> R x y) \<Longrightarrow> sorted_wrt R xs"
  by (induction xs) auto

lemma finite_total:
  assumes "grandTotalOf (sortedRows rows) = Num g"
  shows "(\<forall>r \<in> set (sortedRows rows). \<exists>x. rv_totalValue r = Num x \<and> 0 \<le> x)
       \<and> (\<Sum>r\<leftarrow>sortedRows rows. mag (rv_totalValue r)) = g
       \<and> 0 \<le> g \<and> g < overflowBound"
proof -
  let ?ws = "map rv_totalValue (sortedRows rows)"
  have w: "\<forall>r \<in> set (sortedRows rows). isWeight (rv_totalValue r)"
    by (rule isWeight_sortedRows)
  from assms have s: "sumOfWeights ?ws = Num g"
    by (simp add: grandTotalOf_sumOfWeights [OF w])
  then have fin: "list_all (\<lambda>w. w \<noteq> Infinity) ?ws" and sum: "sum_list (map mag ?ws) = g"
    and lt: "g < overflowBound"
    by (auto simp: sumOfWeights_def split: if_splits)
  have each: "\<exists>x. rv_totalValue r = Num x \<and> 0 \<le> x" if "r \<in> set (sortedRows rows)" for r
  proof -
    from that w have "isWeight (rv_totalValue r)" by blast
    moreover from that fin have "rv_totalValue r \<noteq> Infinity" by (simp add: list_all_iff)
    ultimately show ?thesis using isWeight_cases by blast
  qed
  have "0 \<le> sum_list (map mag ?ws)"
    by (rule sum_list_nonneg) (use w mag_nonneg in auto)
  with each sum lt show ?thesis by (simp add: o_def)
qed

lemma digitsValue_zeros:
  "foldl (\<lambda>n c. 10 * n + digitValue c) a (replicate k (CHR ''0'')) = a * 10 ^ k"
  by (induction k arbitrary: a) (simp_all add: digitValue_def)

subsection \<open>Order of the ranked rows, counts, zero weights\<close>

lemma stripNonNumeric_charset:
  "stripNonNumeric v = filter (\<lambda>c. c \<in> set ''0123456789.-'') v"
  unfolding stripNonNumeric_def isDigit_def by (rule filter_cong) auto

lemma sumOfWeights_Nil: "sumOfWeights [] = Num 0"
  using overflowBound_gt by (simp add: sumOfWeights_def)

lemma sum_list_all_zero:
  "\<forall>x \<in> set xs. f x = (0::real) \<Longrightarrow> sum_list (map f xs) = 0"
  by (induction xs) simp_all

lemma sumOfWeights_zeros: "\<forall>w \<in> set ws. w = Num 0 \<Longrightarrow> sumOfWeights ws = Num 0"
proof -
  assume z: "\<forall>w \<in> set ws. w = Num 0"
  then have "sum_list (map mag ws) = 0" by (intro sum_list_all_zero) auto
  moreover have "list_all (\<lambda>w. w \<noteq> Infinity) ws" using z by (auto simp: list_all_iff)
  ultimately show ?thesis using overflowBound_gt by (simp add: sumOfWeights_def)
qed

lemma no_numeric_weight:
  assumes "\<forall>kv \<in> set (entries row). parseFloat (stripNonNumeric (snd kv)) = NaN"
  shows "rv_totalValue (valueRow index row) = Num 0"
proof -
  have "filter (\<lambda>x. x \<noteq> NaN) (map (\<lambda>kv. parseFloat (stripNonNumeric (snd kv))) (entries row)) = []"
    using assms by (simp add: filter_empty_conv)
  then show ?thesis
    unfolding rv_totalValue_valueRow by (simp add: sumOfWeights_Nil)
qed

lemma sortedRows_descending:
  "sorted_wrt (\<lambda>a b. num_le (rv_totalValue b) (rv_totalValue a)) (sortedRows rows)"
proof -
  have "sorted (map (\<lambda>r. - mag (rv_totalValue r)) (sortedRows rows))"
    unfolding sortedRows_sort_key by (rule sorted_sort_key)
  then have "sorted_wrt (\<lambda>a b. mag (rv_totalValue b) \<le> mag (rv_totalValue a)) (sortedRows rows)"
    by (simp add: sorted_map)
  then show ?thesis
  proof (rule sorted_wrt_mono_rel [rotated])
    fix a b
    assume "a \<in> set (sortedRows rows)" "b \<in> set (sortedRows rows)"
      "mag (rv_totalValue b) \<le> mag (rv_totalValue a)"
    then show "num_le (rv_totalValue b) (rv_totalValue a)"
      using isWeight_sortedRows [of rows] by (simp add: num_le_weights)
  qed
qed

lemma sortedRows_rowNumbers:
  "distinct (map rv_rowNumber (sortedRows rows))
   \<and> set (map rv_rowNumber (sortedRows rows)) = {1..length rows}"
proof -
  have d: "distinct (map rv_rowNumber (rowsWithValues rows))"
    by (simp add: rowNumbers_rowsWithValues)
  then have inj: "inj_on rv_rowNumber (set (rowsWithValues rows))"
    and dr: "distinct (rowsWithValues rows)"
    by (simp_all add: distinct_map)
  have "distinct (map rv_rowNumber (sortedRows rows))"
    unfolding sortedRows_sort_key using inj dr by (simp add: distinct_map)
  moreover have "set (map rv_rowNumber (sortedRows rows))
      = set (map rv_rowNumber (rowsWithValues rows))"
    by simp
  then have "set (map rv_rowNumber (sortedRows rows)) = {1..length rows}"
    unfolding rowNumbers_rowsWithValues by auto
  ultimately show ?thesis by blast
qed

lemma sorted_wrt_filter_iff:
  "sorted_wrt R (filter P xs) = sorted_wrt (\<lambda>a b. P a \<and> P b \<longrightarrow> R a b) xs"
  by (induction xs) auto

lemma sortedRows_ties:
  assumes "i < j" and "j < length (sortedRows rows)"
    and "rv_totalValue (sortedRows rows ! i) = rv_totalValue (sortedRows rows ! j)"
  shows "rv_rowNumber (sortedRows rows ! i) < rv_rowNumber (sortedRows rows ! j)"
proof -
  let ?f = "\<lambda>r. - mag (rv_totalValue r)"
  let ?k = "- mag (rv_totalValue (sortedRows rows ! i))"
  have "sorted_wrt (<) (map rv_rowNumber (rowsWithValues rows))"
    unfolding rowNumbers_rowsWithValues by (rule sorted_wrt_upt)
  then have "sorted_wrt (\<lambda>a b. rv_rowNumber a < rv_rowNumber b) (rowsWithValues rows)"
    by (simp add: sorted_wrt_map)
  then have "sorted_wrt (\<lambda>a b. rv_rowNumber a < rv_rowNumber b)
      (filter (\<lambda>y. ?f y = ?k) (rowsWithValues rows))"
    by (rule sorted_wrt_filter)
  then have "sorted_wrt (\<lambda>a b. rv_rowNumber a < rv_rowNumber b)
      (filter (\<lambda>y. ?f y = ?k) (sortedRows rows))"
    unfolding sortedRows_sort_key by (simp only: sort_key_stable)
  then have "sorted_wrt (\<lambda>a b. ?f a = ?k \<and> ?f b = ?k \<longrightarrow> rv_rowNumber a < rv_rowNumber b)
      (sortedRows rows)"
    by (simp only: sorted_wrt_filter_iff)
  from sorted_wrt_nth_less [OF this assms(1,2)] assms(3) show ?thesis by simp
qed

lemma classification_analyseRow:
  "classification (analyseRow g c row)
     \<in> {''Alta Prioridad'', ''Media Prioridad'', ''Baja Prioridad''}"
  by (simp add: analyseRow_def classify_def Let_def)

lemma list_all_analyseRows:
  "list_all (\<lambda>e. classification e \<in> {''Alta Prioridad'', ''Media Prioridad'', ''Baja Prioridad''})
     (analyseRows g c rs)"
  using classification_analyseRow by (induction rs arbitrary: c) simp_all

lemma count_three:
  "list_all (\<lambda>e. classification e \<in> {''Alta Prioridad'', ''Media Prioridad'', ''Baja Prioridad''}) ras
   \<Longrightarrow> countClass ''Alta Prioridad'' ras + countClass ''Media Prioridad'' ras
         + countClass ''Baja Prioridad'' ras = length ras"
  by (induction ras) (auto simp: countClass_def)

lemma countClass_all:
  "\<forall>e \<in> set ras. classification e = label \<Longrightarrow> countClass label ras = length ras"
  by (induction ras) (simp_all add: countClass_def)

lemma zero_weight_rows:
  assumes "\<forall>row \<in> set rows. \<forall>kv \<in> set (entries row).
             parseFloat (stripNonNumeric (snd kv)) = NaN"
  shows "grandTotalOf (sortedRows rows) = Num 0"
proof -
  have "rv_totalValue r = Num 0" if "r \<in> set (sortedRows rows)" for r
  proof -
    from that have r: "r \<in> set (rowsWithValues rows)" by simp
    from in_rowsWithValues [OF r]
    have *: "1 \<le> rv_rowNumber r" "rv_rowNumber r \<le> length rows"
      "r = valueRow (rv_rowNumber r - 1) (rows ! (rv_rowNumber r - 1))"
      by simp_all
    from *(1,2) have "rows ! (rv_rowNumber r - 1) \<in> set rows" by simp
    with assms
    have "rv_totalValue (valueRow (rv_rowNumber r - 1) (rows ! (rv_rowNumber r - 1))) = Num 0"
      by (intro no_numeric_weight) blast
    with *(3) show ?thesis by simp
  qed
  then have "sumOfWeights (map rv_totalValue (sortedRows rows)) = Num 0"
    by (intro sumOfWeights_zeros) auto
  then show ?thesis
    by (simp add: grandTotalOf_sumOfWeights [OF isWeight_sortedRows])
qed

lemma length_parseCSV: "length (parseCSV t) = length (dataLines t) - 1"
  by (simp add: parseCSV_def Let_def split: list.splits)

subsection \<open>Worked inputs\<close>

lemma thresholds_sorted:
  "sortedRows [[(''v'', ''80'')], [(''v'', ''15'')], [(''v'', ''5'')]] =
     [\<lparr>rv_rowNumber = 1, rv_data = [(''v'', ''80'')], rv_totalValue = Num 80,
        rv_numericValues = [Num 80]\<rparr>,
      \<lparr>rv_rowNumber = 2, rv_data = [(''v'', ''15'')], rv_totalValue = Num 15,
        rv_numericValues = [Num 15]\<rparr>,
      \<lparr>rv_rowNumber = 3, rv_data = [(''v'', ''5'')], rv_totalValue = Num 5,
        rv_numericValues = [Num 5]\<rparr>]"
  by (simp add: value_eval)

lemma tie_sorted:
  "sortedRows [[(''v'', ''5'')], [(''v'', ''7'')], [(''v'', ''5'')]] =
     [\<lparr>rv_rowNumber = 2, rv_data = [(''v'', ''7'')], rv_totalValue = Num 7,
        rv_numericValues = [Num 7]\<rparr>,
      \<lparr>rv_rowNumber = 1, rv_data = [(''v'', ''5'')], rv_totalValue = Num 5,
        rv_numericValues = [Num 5]\<rparr>,
      \<lparr>rv_rowNumber = 3, rv_data = [(''v'', ''5'')], rv_totalValue = Num 5,
        rv_numericValues = [Num 5]\<rparr>]"
  by (simp add: value_eval)

lemma scenarioC_rows:
  "parseCSV ''id,name\<newline>1,Alice'' = [[(''id'', ''1''), (''name'', ''Alice'')]]"
  by (simp add: parse_eval)

lemma scenarioC_entries:
  "entries [(''id'', ''1''), (''name'', ''Alice'')] = [(''id'', ''1''), (''name'', ''Alice'')]"
  by (simp add: entries_def isArrayIndex_def)

lemma alice_rows: "parseCSV ''name\<newline>Alice'' = [[(''name'', ''Alice'')]]"
  by (simp add: parse_eval)

lemma alice_entries: "entries [(''name'', ''Alice'')] = [(''name'', ''Alice'')]"
  by (simp add: entries_def isArrayIndex_def)

lemma alice_sorted:
  "sortedRows [[(''name'', ''Alice'')]] =
     [\<lparr>rv_rowNumber = 1, rv_data = [(''name'', ''Alice'')], rv_totalValue = Num 0,
        rv_numericValues = []\<rparr>]"
  by (simp add: value_eval)

lemma alice_analyses:
  "rowAnalyses (performParetoAnalysis [[(''name'', ''Alice'')]]) =
     [\<lparr>rowNumber = 1, data = [(''name'', ''Alice'')],
        paretoScore = Num 30, classification = ''Alta Prioridad'',
        metrics = \<lparr>totalValue = Num 0, cumulativePercentage = Num 0, contribution = Num 0\<rparr>,
        recommendations =
          [CriticalLine (toFixed1 (Num 0)), PrioritizeResources, ContinuousTracking, Top20]\<rparr>]"
  by (simp add: rowAnalyses_performParetoAnalysis alice_sorted analyse_eval
        generateRecommendations_def)

lemma parseFloat_Alice: "parseFloat (stripNonNumeric ''Alice'') = NaN"
  by (simp add: stripNonNumeric_def isDigit_def parseFloat_def)

lemma entries_order_example:
  "entries [(''b'', ''1''), (''10'', ''x''), (''2'', ''y''), (''01'', ''z'')] =
     [(''2'', ''y''), (''10'', ''x''), (''b'', ''1''), (''01'', ''z'')]"
  by (simp add: entries_def isArrayIndex_def digitsValue_def digitValue_def)

subsection \<open>Inputs at the edge of the number range\<close>

lemma parseFloat_power_of_ten:
  "parseFloat (stripNonNumeric (CHR ''1'' # replicate k (CHR ''0''))) = fromReal (10 ^ k)"
proof -
  have isd: "isDigit (CHR ''1'')" "isDigit (CHR ''0'')"
    by (simp_all add: isDigit_def)
  have strip: "stripNonNumeric (CHR ''1'' # replicate k (CHR ''0''))
      = CHR ''1'' # replicate k (CHR ''0'')"
    by (simp add: stripNonNumeric_def isd)
  have "digitsValue (CHR ''1'' # replicate k (CHR ''0''))
      = (10 * 0 + digitValue (CHR ''1'')) * 10 ^ k"
    unfolding digitsValue_def foldl_Cons by (rule digitsValue_zeros)
  moreover have "digitValue (CHR ''1'') = 1" by (simp add: digitValue_def)
  ultimately have dv: "real (digitsValue (CHR ''1'' # replicate k (CHR ''0''))) = 10 ^ k"
    by simp
  have nil: "digitsValue [] = 0" by (simp add: digitsValue_def)
  have "parseFloat (CHR ''1'' # replicate k (CHR ''0'')) = fromReal (10 ^ k)"
    by (simp add: parseFloat_def isd takeWhile_replicate dropWhile_replicate dv nil
          del: of_nat_power of_nat_numeral)
  then show ?thesis by (simp only: strip)
qed

lemma parseFloat_overflow:
  "parseFloat (stripNonNumeric (CHR ''1'' # replicate 309 (CHR ''0''))) = Infinity"
  unfolding parseFloat_power_of_ten by (simp add: fromReal_def overflowBound_def)

lemma parseFloat_large:
  "parseFloat (stripNonNumeric (CHR ''1'' # replicate 308 (CHR ''0''))) = Num (10 ^ 308)"
  unfolding parseFloat_power_of_ten by (simp add: fromReal_def overflowBound_def)

lemma one_overflow_sorted:
  "sortedRows [[(''v'', CHR ''1'' # replicate 309 (CHR ''0''))]] =
     [\<lparr>rv_rowNumber = 1, rv_data = [(''v'', CHR ''1'' # replicate 309 (CHR ''0''))],
        rv_totalValue = Infinity, rv_numericValues = [Infinity]\<rparr>]"
  by (simp add: entries_def isArrayIndex_def valueRow_def valueStep_def rowsWithValues_def
        enumerate_eq_zip upt_rec sortedRows_def sortBy_def Let_def parseFloat_overflow)

lemma large_facts:
  "(0::real) < 10 ^ 308" "(10::real) ^ 308 < overflowBound"
  "overflowBound \<le> 10 ^ 308 + 10 ^ 308"
  by (simp_all add: overflowBound_def)

lemma two_large_sorted:
  "sortedRows [[(''v'', CHR ''1'' # replicate 308 (CHR ''0''))],
               [(''v'', CHR ''1'' # replicate 308 (CHR ''0''))]] =
     [\<lparr>rv_rowNumber = 1, rv_data = [(''v'', CHR ''1'' # replicate 308 (CHR ''0''))],
        rv_totalValue = Num (10 ^ 308), rv_numericValues = [Num (10 ^ 308)]\<rparr>,
      \<lparr>rv_rowNumber = 2, rv_data = [(''v'', CHR ''1'' # replicate 308 (CHR ''0''))],
        rv_totalValue = Num (10 ^ 308), rv_numericValues = [Num (10 ^ 308)]\<rparr>]"
proof -
  define big :: real where "big = 10 ^ 308"
  have b: "0 < big" "big < overflowBound"
    using large_facts by (simp_all only: big_def)
  have f: "fromReal big = Num big" "fromReal 0 = Num 0" "\<bar>big\<bar> = big"
    using b by (simp_all add: fromReal_def)
  have pf: "parseFloat (stripNonNumeric (CHR ''1'' # replicate 308 (CHR ''0''))) = Num big"
    unfolding parseFloat_power_of_ten using f(1) by (simp only: big_def)
  have "sortedRows [[(''v'', CHR ''1'' # replicate 308 (CHR ''0''))],
               [(''v'', CHR ''1'' # replicate 308 (CHR ''0''))]] =
     [\<lparr>rv_rowNumber = 1, rv_data = [(''v'', CHR ''1'' # replicate 308 (CHR ''0''))],
        rv_totalValue = Num big, rv_numericValues = [Num big]\<rparr>,
      \<lparr>rv_rowNumber = 2, rv_data = [(''v'', CHR ''1'' # replicate 308 (CHR ''0''))],
        rv_totalValue = Num big, rv_numericValues = [Num big]\<rparr>]"
    by (simp add: entries_def isArrayIndex_def valueRow_def valueStep_def rowsWithValues_def
          enumerate_eq_zip upt_rec sortedRows_def sortBy_def Let_def pf notAfter_def
          num_sub_def f)
  then show ?thesis by (simp only: big_def)
qed

lemma two_large_analyses:
  "grandTotalValue (summary (performParetoAnalysis
      [[(''v'', CHR ''1'' # replicate 308 (CHR ''0''))],
       [(''v'', CHR ''1'' # replicate 308 (CHR ''0''))]])) = Infinity
   \<and> map (\<lambda>e. contribution (metrics e)) (rowAnalyses (performParetoAnalysis
        [[(''v'', CHR ''1'' # replicate 308 (CHR ''0''))],
         [(''v'', CHR ''1'' # replicate 308 (CHR ''0''))]])) = [Num 0, Num 0]
   \<and> map (\<lambda>e. cumulativePercentage (metrics e)) (rowAnalyses (performParetoAnalysis
        [[(''v'', CHR ''1'' # replicate 308 (CHR ''0''))],
         [(''v'', CHR ''1'' # replicate 308 (CHR ''0''))]])) = [Num 0, NaN]"
proof -
  define big :: real where "big = 10 ^ 308"
  have b: "0 < big" "big < overflowBound" "overflowBound \<le> big + big"
    using large_facts by (simp_all only: big_def)
  have f: "fromReal big = Num big" "fromReal 0 = Num 0" "fromReal (big + big) = Infinity"
    "fromReal (2 * big) = Infinity"
    using b by (simp_all add: fromReal_def)
  have srt: "sortedRows [[(''v'', CHR ''1'' # replicate 308 (CHR ''0''))],
               [(''v'', CHR ''1'' # replicate 308 (CHR ''0''))]] =
     [\<lparr>rv_rowNumber = 1, rv_data = [(''v'', CHR ''1'' # replicate 308 (CHR ''0''))],
        rv_totalValue = Num big, rv_numericValues = [Num big]\<rparr>,
      \<lparr>rv_rowNumber = 2, rv_data = [(''v'', CHR ''1'' # replicate 308 (CHR ''0''))],
        rv_totalValue = Num big, rv_numericValues = [Num big]\<rparr>]"
    using two_large_sorted by (simp only: big_def)
  show ?thesis
    by (simp add: rowAnalyses_performParetoAnalysis grandTotalValue_performParetoAnalysis
          srt grandTotalOf_def analyseRow_def Let_def f)
qed

section \<open>The claims\<close>

text \<open>
  Claim C1. For every record of the report, the tier and the score are determined by the
  cumulative share and the contribution share with inclusive upper bounds: a cumulative
  share of at most 80 gives \<open>Alta Prioridad\<close> (High) and a bonus of 30; above 80 and at most
  95 gives \<open>Media Prioridad\<close> (Medium) and a bonus of 15; above 95 gives \<open>Baja Prioridad\<close>
  (Low) and no bonus; the score is the contribution plus the bonus. In particular a record
  whose cumulative share is exactly 80 or exactly 95 is not Low. The comparisons are those
  of the language, so a cumulative share that is \<open>NaN\<close> meets none of the three conditions.
\<close>

theorem tier_and_score_by_thresholds:
  assumes "e \<in> set (rowAnalyses (performParetoAnalysis rows))"
  shows "(num_le (cumulativePercentage (metrics e)) (Num 80) \<longrightarrow>
            classification e = ''Alta Prioridad''
            \<and> paretoScore e = num_add (contribution (metrics e)) (Num 30))
       \<and> (num_lt (Num 80) (cumulativePercentage (metrics e))
          \<and> num_le (cumulativePercentage (metrics e)) (Num 95) \<longrightarrow>
            classification e = ''Media Prioridad''
            \<and> paretoScore e = num_add (contribution (metrics e)) (Num 15))
       \<and> (num_lt (Num 95) (cumulativePercentage (metrics e)) \<longrightarrow>
            classification e = ''Baja Prioridad''
            \<and> paretoScore e = num_add (contribution (metrics e)) (Num 0)
            \<and> paretoScore e = contribution (metrics e))
       \<and> (cumulativePercentage (metrics e) = Num 80 \<or> cumulativePercentage (metrics e) = Num 95 \<longrightarrow>
            classification e \<noteq> ''Baja Prioridad'')"
proof -
  from assms obtain c' row where e: "e = analyseRow (grandTotalOf (sortedRows rows)) c' row"
    unfolding rowAnalyses_performParetoAnalysis by (blast dest: in_analyseRows)
  have le_lt: "num_lt a b \<Longrightarrow> \<not> num_le b a" for a b
    by (cases a; cases b) simp_all
  have le_trans: "num_le a (Num 80) \<Longrightarrow> num_le a (Num 95)" for a
    by (cases a) simp_all
  have zero: "num_add (contribution (metrics e)) (Num 0) = contribution (metrics e)"
    unfolding e by (rule add_zero_contribution)
  show ?thesis
    unfolding zero unfolding e using le_lt le_trans
    by (auto simp: analyseRow_def classify_def Let_def)
qed

text \<open>
  The theorem at three rows of weights 80, 15 and 5, whose cumulative shares are exactly
  80, 95 and 100.
\<close>

theorem tier_and_score_by_thresholds_witness:
  "rowAnalyses (performParetoAnalysis [[(''v'', ''80'')], [(''v'', ''15'')], [(''v'', ''5'')]]) ! 0
     \<in> set (rowAnalyses (performParetoAnalysis [[(''v'', ''80'')], [(''v'', ''15'')], [(''v'', ''5'')]]))
   \<and> cumulativePercentage (metrics (rowAnalyses (performParetoAnalysis
        [[(''v'', ''80'')], [(''v'', ''15'')], [(''v'', ''5'')]]) ! 0)) = Num 80
   \<and> classification (rowAnalyses (performParetoAnalysis
        [[(''v'', ''80'')], [(''v'', ''15'')], [(''v'', ''5'')]]) ! 0) = ''Alta Prioridad''
   \<and> paretoScore (rowAnalyses (performParetoAnalysis
        [[(''v'', ''80'')], [(''v'', ''15'')], [(''v'', ''5'')]]) ! 0) = Num (80 + 30)
   \<and> cumulativePercentage (metrics (rowAnalyses (performParetoAnalysis
        [[(''v'', ''80'')], [(''v'', ''15'')], [(''v'', ''5'')]]) ! 1)) = Num 95
   \<and> classification (rowAnalyses (performParetoAnalysis
        [[(''v'', ''80'')], [(''v'', ''15'')], [(''v'', ''5'')]]) ! 1) = ''Media Prioridad''
   \<and> cumulativePercentage (metrics (rowAnalyses (performParetoAnalysis
        [[(''v'', ''80'')], [(''v'', ''15'')], [(''v'', ''5'')]]) ! 2)) = Num 100
   \<and> classification (rowAnalyses (performParetoAnalysis
        [[(''v'', ''80'')], [(''v'', ''15'')], [(''v'', ''5'')]]) ! 2) = ''Baja Prioridad''"
  using tier_and_score_by_thresholds
          [of "rowAnalyses (performParetoAnalysis
                 [[(''v'', ''80'')], [(''v'', ''15'')], [(''v'', ''5'')]]) ! 0"
              "[[(''v'', ''80'')], [(''v'', ''15'')], [(''v'', ''5'')]]"]
        tier_and_score_by_thresholds
          [of "rowAnalyses (performParetoAnalysis
                 [[(''v'', ''80'')], [(''v'', ''15'')], [(''v'', ''5'')]]) ! 1"
              "[[(''v'', ''80'')], [(''v'', ''15'')], [(''v'', ''5'')]]"]
        tier_and_score_by_thresholds
          [of "rowAnalyses (performParetoAnalysis
                 [[(''v'', ''80'')], [(''v'', ''15'')], [(''v'', ''5'')]]) ! 2"
              "[[(''v'', ''80'')], [(''v'', ''15'')], [(''v'', ''5'')]]"]
  by (simp add: rowAnalyses_performParetoAnalysis thresholds_sorted analyse_eval)

text \<open>
  Claim C2. On the input \<open>name,val\<close>, \<open>A,10\<close>, \<open>B,90\<close> (three lines) the analysis produces
  exactly two records; B has weight 90 and A has weight 10; the ranked order is B, then A;
  the contribution shares are 90 and 10 and the cumulative shares 90 and 100; B is
  classified Medium and A is classified Low.
\<close>

theorem scenario_A_report:
  "parseCSV ''name,val\<newline>A,10\<newline>B,90'' =
     [[(''name'', ''A''), (''val'', ''10'')], [(''name'', ''B''), (''val'', ''90'')]]
   \<and> map data (rowAnalyses (performParetoAnalysis (parseCSV ''name,val\<newline>A,10\<newline>B,90''))) =
     [[(''name'', ''B''), (''val'', ''90'')], [(''name'', ''A''), (''val'', ''10'')]]
   \<and> map rowNumber (rowAnalyses (performParetoAnalysis (parseCSV ''name,val\<newline>A,10\<newline>B,90''))) =
     [2, 1]
   \<and> map (\<lambda>e. totalValue (metrics e))
        (rowAnalyses (performParetoAnalysis (parseCSV ''name,val\<newline>A,10\<newline>B,90'')))
       = [Num 90, Num 10]
   \<and> map (\<lambda>e. contribution (metrics e))
        (rowAnalyses (performParetoAnalysis (parseCSV ''name,val\<newline>A,10\<newline>B,90'')))
       = [Num 90, Num 10]
   \<and> map (\<lambda>e. cumulativePercentage (metrics e))
        (rowAnalyses (performParetoAnalysis (parseCSV ''name,val\<newline>A,10\<newline>B,90'')))
       = [Num 90, Num 100]
   \<and> map classification
        (rowAnalyses (performParetoAnalysis (parseCSV ''name,val\<newline>A,10\<newline>B,90''))) =
     [''Media Prioridad'', ''Baja Prioridad'']"
  by (simp add: scenarioA_rows scenarioA_analyses)

text \<open>
  Claim C3 says that for every input whose total weight is greater than 0 the contribution
  shares sum to 100, the cumulative shares never decrease along the ranked sequence and
  the last cumulative share is 100. This fails when the total weight is \<open>Infinity\<close>, which
  passes the guard \<open>grandTotal > 0\<close>. A single cell holding 1 followed by 309 zeros is
  converted to \<open>Infinity\<close>: the total is \<open>Infinity\<close> and the only contribution share and
  cumulative share are \<open>NaN\<close>. Two rows holding 1 followed by 308 zeros have finite weights
  whose sum overflows: the total is \<open>Infinity\<close>, both contribution shares are 0, and the
  cumulative shares are 0 and then \<open>NaN\<close>, which is not a non-decreasing sequence since
  \<open>0 <= NaN\<close> is false.
\<close>

theorem shares_undefined_on_overflow:
  "num_lt (Num 0) (grandTotalValue (summary (performParetoAnalysis
      [[(''v'', CHR ''1'' # replicate 309 (CHR ''0''))]])))
   \<and> length (rowAnalyses (performParetoAnalysis
        [[(''v'', CHR ''1'' # replicate 309 (CHR ''0''))]])) = 1
   \<and> contribution (metrics (hd (rowAnalyses (performParetoAnalysis
        [[(''v'', CHR ''1'' # replicate 309 (CHR ''0''))]])))) = NaN
   \<and> cumulativePercentage (metrics (last (rowAnalyses (performParetoAnalysis
        [[(''v'', CHR ''1'' # replicate 309 (CHR ''0''))]])))) = NaN
   \<and> num_lt (Num 0) (grandTotalValue (summary (performParetoAnalysis
        [[(''v'', CHR ''1'' # replicate 308 (CHR ''0''))],
         [(''v'', CHR ''1'' # replicate 308 (CHR ''0''))]])))
   \<and> contribution (metrics (rowAnalyses (performParetoAnalysis
        [[(''v'', CHR ''1'' # replicate 308 (CHR ''0''))],
         [(''v'', CHR ''1'' # replicate 308 (CHR ''0''))]]) ! 0)) = Num 0
   \<and> contribution (metrics (rowAnalyses (performParetoAnalysis
        [[(''v'', CHR ''1'' # replicate 308 (CHR ''0''))],
         [(''v'', CHR ''1'' # replicate 308 (CHR ''0''))]]) ! 1)) = Num 0
   \<and> cumulativePercentage (metrics (rowAnalyses (performParetoAnalysis
        [[(''v'', CHR ''1'' # replicate 308 (CHR ''0''))],
         [(''v'', CHR ''1'' # replicate 308 (CHR ''0''))]]) ! 0)) = Num 0
   \<and> cumulativePercentage (metrics (rowAnalyses (performParetoAnalysis
        [[(''v'', CHR ''1'' # replicate 308 (CHR ''0''))],
         [(''v'', CHR ''1'' # replicate 308 (CHR ''0''))]]) ! 1)) = NaN
   \<and> \<not> num_le
        (cumulativePercentage (metrics (rowAnalyses (performParetoAnalysis
           [[(''v'', CHR ''1'' # replicate 308 (CHR ''0''))],
            [(''v'', CHR ''1'' # replicate 308 (CHR ''0''))]]) ! 0)))
        (cumulativePercentage (metrics (rowAnalyses (performParetoAnalysis
           [[(''v'', CHR ''1'' # replicate 308 (CHR ''0''))],
            [(''v'', CHR ''1'' # replicate 308 (CHR ''0''))]]) ! 1)))"
proof -
  let ?two = "rowAnalyses (performParetoAnalysis
        [[(''v'', CHR ''1'' # replicate 308 (CHR ''0''))],
         [(''v'', CHR ''1'' # replicate 308 (CHR ''0''))]])"
  have one: "num_lt (Num 0) (grandTotalValue (summary (performParetoAnalysis
      [[(''v'', CHR ''1'' # replicate 309 (CHR ''0''))]])))
   \<and> length (rowAnalyses (performParetoAnalysis
        [[(''v'', CHR ''1'' # replicate 309 (CHR ''0''))]])) = 1
   \<and> contribution (metrics (hd (rowAnalyses (performParetoAnalysis
        [[(''v'', CHR ''1'' # replicate 309 (CHR ''0''))]])))) = NaN
   \<and> cumulativePercentage (metrics (last (rowAnalyses (performParetoAnalysis
        [[(''v'', CHR ''1'' # replicate 309 (CHR ''0''))]])))) = NaN"
    by (simp add: rowAnalyses_performParetoAnalysis grandTotalValue_performParetoAnalysis
          one_overflow_sorted grandTotalOf_def analyseRow_def Let_def)
  have len: "length ?two = 2"
    by (simp add: rowAnalyses_performParetoAnalysis)
  from two_large_analyses have cum: "map (\<lambda>e. cumulativePercentage (metrics e)) ?two = [Num 0, NaN]"
    by simp
  have c0: "cumulativePercentage (metrics (?two ! 0)) = Num 0"
    using arg_cong [OF cum, of "\<lambda>xs. xs ! 0"] len by simp
  have c1: "cumulativePercentage (metrics (?two ! 1)) = NaN"
    using arg_cong [OF cum, of "\<lambda>xs. xs ! 1"] len by simp
  from two_large_analyses have con: "map (\<lambda>e. contribution (metrics e)) ?two = [Num 0, Num 0]"
    by simp
  have d0: "contribution (metrics (?two ! 0)) = Num 0"
    using arg_cong [OF con, of "\<lambda>xs. xs ! 0"] len by simp
  have d1: "contribution (metrics (?two ! 1)) = Num 0"
    using arg_cong [OF con, of "\<lambda>xs. xs ! 1"] len by simp
  from one two_large_analyses c0 c1 d0 d1 show ?thesis by simp
qed

text \<open>
  Claim C3, amended. For every input whose total weight is finite: the total weight is the
  sum of the weights of the records; the cumulative shares never decrease along the ranked
  sequence; when the total weight is greater than 0, the contribution shares are finite and
  sum to 100 and the cumulative share of the last record is 100; when the total weight is 0
  (and there is a record) the cumulative share of the last record is 0. Finite results are
  exact here, so the equalities hold exactly and not only within a tolerance.
\<close>

theorem shares_conserved_and_monotone:
  assumes "grandTotalValue (summary (performParetoAnalysis rows)) = Num g"
  shows "sumOfWeights (map (\<lambda>e. totalValue (metrics e)) (rowAnalyses (performParetoAnalysis rows)))
           = grandTotalValue (summary (performParetoAnalysis rows))
       \<and> 0 \<le> g
       \<and> (0 < g \<longrightarrow>
            (\<exists>cs. map (\<lambda>e. contribution (metrics e)) (rowAnalyses (performParetoAnalysis rows))
                     = map Num cs \<and> sum_list cs = 100)
            \<and> cumulativePercentage (metrics (last (rowAnalyses (performParetoAnalysis rows))))
                = Num 100)
       \<and> sorted_wrt num_le
            (map (\<lambda>e. cumulativePercentage (metrics e)) (rowAnalyses (performParetoAnalysis rows)))
       \<and> (rows \<noteq> [] \<and> g = 0 \<longrightarrow>
            cumulativePercentage (metrics (last (rowAnalyses (performParetoAnalysis rows))))
              = Num 0)"
proof -
  let ?rs = "sortedRows rows"
  let ?ras = "analyseRows (Num g) (Num 0) ?rs"
  let ?ws = "map (\<lambda>r. mag (rv_totalValue r)) ?rs"
  from assms have G: "grandTotalOf ?rs = Num g"
    by (simp add: grandTotalValue_performParetoAnalysis)
  have ras: "rowAnalyses (performParetoAnalysis rows) = ?ras"
    by (simp add: rowAnalyses_performParetoAnalysis G)
  from finite_total [OF G]
  have fin: "\<forall>r \<in> set ?rs. \<exists>x. rv_totalValue r = Num x \<and> 0 \<le> x"
    and sum: "sum_list ?ws = g" and g0: "0 \<le> g" and gB: "g < overflowBound"
    by simp_all
  have wnn: "\<forall>w \<in> set ?ws. 0 \<le> w" using fin by auto
  have total: "sumOfWeights (map (\<lambda>e. totalValue (metrics e)) ?ras) = Num g"
    using G grandTotalOf_sumOfWeights [OF isWeight_sortedRows, of rows]
    by (simp only: analyseRows_totalValue)
  have ne: "?rs \<noteq> []" if "rows \<noteq> []"
    using that length_sortedRows [of rows] by (metis length_0_conv)
  have pos: "(\<exists>cs. map (\<lambda>e. contribution (metrics e)) ?ras = map Num cs \<and> sum_list cs = 100)
      \<and> cumulativePercentage (metrics (last ?ras)) = Num 100
      \<and> sorted_wrt num_le (map (\<lambda>e. cumulativePercentage (metrics e)) ?ras)" if "0 < g"
  proof -
    have b: "0 + (\<Sum>r\<leftarrow>?rs. mag (rv_totalValue r)) \<le> g" using sum by simp
    from analyseRows_finite [OF fin _ b that gB]
    have c: "map (\<lambda>e. contribution (metrics e)) ?ras
          = map (\<lambda>r. Num (mag (rv_totalValue r) / g * 100)) ?rs"
      and p: "map (\<lambda>e. cumulativePercentage (metrics e)) ?ras
          = map (\<lambda>s. Num (s / g * 100)) (running 0 ?ws)"
      by simp_all
    have "map (\<lambda>e. contribution (metrics e)) ?ras
        = map Num (map (\<lambda>r. mag (rv_totalValue r) / g * 100) ?rs)"
      using c by (simp add: o_def)
    moreover have "sum_list (map (\<lambda>r. mag (rv_totalValue r) / g * 100) ?rs) = 100"
    proof -
      have "(\<Sum>r\<leftarrow>?rs. mag (rv_totalValue r) / g * 100)
          = (\<Sum>r\<leftarrow>?rs. mag (rv_totalValue r)) / g * 100"
        by (rule sum_list_shares)
      also have "\<dots> = 100" using sum that by simp
      finally show ?thesis .
    qed
    ultimately have one: "\<exists>cs. map (\<lambda>e. contribution (metrics e)) ?ras = map Num cs
        \<and> sum_list cs = 100"
      by blast
    from that sum have rsne: "?rs \<noteq> []" by auto
    then have rasne: "?ras \<noteq> []" by (cases ?rs) simp_all
    have "cumulativePercentage (metrics (last ?ras))
        = last (map (\<lambda>e. cumulativePercentage (metrics e)) ?ras)"
      using rasne by (simp add: last_map)
    also have "\<dots> = Num (last (running 0 ?ws) / g * 100)"
      using rsne unfolding p by (subst last_map) (cases ?rs; simp)+
    also have "\<dots> = Num 100"
      using rsne that sum by (simp add: last_running)
    finally have two: "cumulativePercentage (metrics (last ?ras)) = Num 100" .
    have "sorted (running 0 ?ws)" by (rule sorted_running [OF wnn])
    then have "sorted_wrt (\<lambda>a b. a / g * 100 \<le> b / g * 100) (running 0 ?ws)"
      using that by (simp add: divide_le_cancel sorted_wrt_iff_nth_less sorted_iff_nth_mono_less)
    then have three: "sorted_wrt num_le (map (\<lambda>e. cumulativePercentage (metrics e)) ?ras)"
      unfolding p by (simp add: sorted_wrt_map)
    from one two three show ?thesis by blast
  qed
  have zero: "sorted_wrt num_le (map (\<lambda>e. cumulativePercentage (metrics e)) ?ras)
      \<and> (rows \<noteq> [] \<longrightarrow> cumulativePercentage (metrics (last ?ras)) = Num 0)" if "g = 0"
  proof -
    have each: "cumulativePercentage (metrics e) = Num 0" if "e \<in> set ?ras" for e
      using analyseRows_zero_total that \<open>g = 0\<close> by blast
    have "sorted_wrt num_le (map (\<lambda>e. cumulativePercentage (metrics e)) ?ras)"
      by (rule sorted_wrt_all) (use each in auto)
    moreover have "cumulativePercentage (metrics (last ?ras)) = Num 0" if "rows \<noteq> []"
    proof -
      from ne [OF that] have "?ras \<noteq> []" by (cases ?rs) simp_all
      then have "last ?ras \<in> set ?ras" by (rule last_in_set)
      then show ?thesis by (rule each)
    qed
    ultimately show ?thesis by blast
  qed
  show ?thesis
    unfolding ras assms using total g0 pos zero
    by (cases "g = 0") auto
qed

text \<open>
  The theorem at an input of total weight 100 and at an input of total weight 0.
\<close>

theorem shares_conserved_and_monotone_witness:
  "grandTotalValue (summary (performParetoAnalysis (parseCSV ''name,val\<newline>A,10\<newline>B,90'')))
     = Num 100
   \<and> (0::real) < 100
   \<and> map (\<lambda>e. contribution (metrics e))
        (rowAnalyses (performParetoAnalysis (parseCSV ''name,val\<newline>A,10\<newline>B,90'')))
       = map Num [90, 10]
   \<and> cumulativePercentage (metrics (last (rowAnalyses
        (performParetoAnalysis (parseCSV ''name,val\<newline>A,10\<newline>B,90''))))) = Num 100
   \<and> parseCSV ''name\<newline>Alice'' \<noteq> []
   \<and> grandTotalValue (summary (performParetoAnalysis (parseCSV ''name\<newline>Alice''))) = Num 0
   \<and> cumulativePercentage (metrics (last (rowAnalyses
        (performParetoAnalysis (parseCSV ''name\<newline>Alice''))))) = Num 0"
  using shares_conserved_and_monotone [of "parseCSV ''name,val\<newline>A,10\<newline>B,90''" 100]
        shares_conserved_and_monotone [of "parseCSV ''name\<newline>Alice''" 0]
  by (simp add: grandTotalValue_performParetoAnalysis scenarioA_rows scenarioA_sorted
        scenarioA_analyses alice_rows alice_sorted analyse_eval)

text \<open>
  Claim C4 says that an input of a header and at least one data row, none with a numeric
  field, gives total value 0, shares 0, every record in tier Low, and a report without
  error. The code puts these records in tier High: their cumulative share is 0, and the
  first guard of the classification, \<open>cumulativePercentage <= 80\<close>, holds. On the input
  \<open>name\<close>, \<open>Alice\<close> (two lines) the only record is \<open>Alta Prioridad\<close>.
\<close>

theorem zero_weight_row_is_not_low:
  "parseCSV ''name\<newline>Alice'' = [[(''name'', ''Alice'')]]
   \<and> parseFloat (stripNonNumeric ''Alice'') = NaN
   \<and> map classification (rowAnalyses (performParetoAnalysis (parseCSV ''name\<newline>Alice'')))
       = [''Alta Prioridad'']
   \<and> map classification (rowAnalyses (performParetoAnalysis (parseCSV ''name\<newline>Alice'')))
       \<noteq> [''Baja Prioridad'']"
  by (simp add: alice_rows alice_analyses parseFloat_Alice)

text \<open>
  Claim C4, amended. For every input with a header and at least one data row, none of
  which holds a numeric field, the report is assembled without error, its total value is 0,
  every contribution share and cumulative share is 0, and every record is classified
  \<open>Alta Prioridad\<close> (High) with score 30; no record is Low.
\<close>

theorem zero_weight_rows_are_high:
  assumes "parseCSV t \<noteq> []"
    and "\<forall>row \<in> set (parseCSV t). \<forall>kv \<in> set (entries row).
           parseFloat (stripNonNumeric (snd kv)) = NaN"
  shows "analyzeText t = Inr (performParetoAnalysis (parseCSV t))
       \<and> grandTotalValue (summary (performParetoAnalysis (parseCSV t))) = Num 0
       \<and> (\<forall>e \<in> set (rowAnalyses (performParetoAnalysis (parseCSV t))).
            contribution (metrics e) = Num 0 \<and> cumulativePercentage (metrics e) = Num 0
            \<and> classification e = ''Alta Prioridad'' \<and> paretoScore e = Num 30)
       \<and> highPriority (summary (performParetoAnalysis (parseCSV t))) = length (parseCSV t)
       \<and> lowPriority (summary (performParetoAnalysis (parseCSV t))) = 0"
proof -
  let ?rows = "parseCSV t"
  let ?rs = "sortedRows ?rows"
  have g: "grandTotalOf ?rs = Num 0" by (rule zero_weight_rows [OF assms(2)])
  have ras: "rowAnalyses (performParetoAnalysis ?rows) = analyseRows (Num 0) (Num 0) ?rs"
    by (simp add: rowAnalyses_performParetoAnalysis g)
  have each: "\<forall>e \<in> set (analyseRows (Num 0) (Num 0) ?rs).
      contribution (metrics e) = Num 0 \<and> cumulativePercentage (metrics e) = Num 0
      \<and> classification e = ''Alta Prioridad'' \<and> paretoScore e = Num 30"
    using analyseRows_zero_total by blast
  then have high: "countClass ''Alta Prioridad'' (analyseRows (Num 0) (Num 0) ?rs) = length ?rows"
    by (simp add: countClass_all)
  have "filter (\<lambda>r. classification r = ''Baja Prioridad'') (analyseRows (Num 0) (Num 0) ?rs) = []"
    using each by (simp add: filter_empty_conv)
  then have low: "countClass ''Baja Prioridad'' (analyseRows (Num 0) (Num 0) ?rs) = 0"
    by (simp add: countClass_def)
  have "analyzeText t = Inr (performParetoAnalysis ?rows)"
    using assms(1) by (simp add: analyzeText_def Let_def)
  moreover have "grandTotalValue (summary (performParetoAnalysis ?rows)) = Num 0"
    by (simp add: grandTotalValue_performParetoAnalysis g)
  moreover have "highPriority (summary (performParetoAnalysis ?rows)) = length ?rows"
    using high by (simp add: performParetoAnalysis_def Let_def g)
  moreover have "lowPriority (summary (performParetoAnalysis ?rows)) = 0"
    using low by (simp add: performParetoAnalysis_def Let_def g)
  ultimately show ?thesis
    using each unfolding ras by blast
qed

text \<open>The amended claim on the input \<open>name\<close>, \<open>Alice\<close>.\<close>

theorem zero_weight_rows_are_high_witness:
  "parseCSV ''name\<newline>Alice'' \<noteq> []
   \<and> parseFloat (stripNonNumeric ''Alice'') = NaN
   \<and> analyzeText ''name\<newline>Alice'' = Inr (performParetoAnalysis (parseCSV ''name\<newline>Alice''))
   \<and> grandTotalValue (summary (performParetoAnalysis (parseCSV ''name\<newline>Alice''))) = Num 0
   \<and> highPriority (summary (performParetoAnalysis (parseCSV ''name\<newline>Alice''))) = 1
   \<and> lowPriority (summary (performParetoAnalysis (parseCSV ''name\<newline>Alice''))) = 0"
  using zero_weight_rows_are_high [of "''name\<newline>Alice''"]
  by (simp add: alice_rows alice_entries parseFloat_Alice)

text \<open>
  Claim C5. For every input text, the core fails with \<open>EmptyInput\<close> exactly when parsing
  yields no record, which is the case exactly when the text has at most one non-blank line
  (so also for a header without data lines); for every input with at least one record it
  returns the report, whatever the fields hold and however short the rows are.
\<close>

theorem empty_input_iff_no_records:
  "(analyzeText t = Inl EmptyInput \<longleftrightarrow> parseCSV t = [])
   \<and> (parseCSV t = [] \<longleftrightarrow> length (dataLines t) \<le> 1)
   \<and> (parseCSV t \<noteq> [] \<longrightarrow> analyzeText t = Inr (performParetoAnalysis (parseCSV t)))"
  using length_parseCSV [of t] by (auto simp: analyzeText_def Let_def)

text \<open>
  The theorem at a header without data lines, and at a header of two columns followed by a
  short row without a number.
\<close>

theorem empty_input_iff_no_records_witness:
  "analyzeText ''name,val'' = Inl EmptyInput
   \<and> parseCSV ''a,b\<newline>x'' \<noteq> []
   \<and> analyzeText ''a,b\<newline>x'' = Inr (performParetoAnalysis (parseCSV ''a,b\<newline>x''))"
  using empty_input_iff_no_records [of "''name,val''"]
        empty_input_iff_no_records [of "''a,b\<newline>x''"]
  by (simp add: parse_eval)

text \<open>
  Claim C6. For every record, each column value is stripped of every character that is
  not a digit, \<open>.\<close> or \<open>-\<close> and then converted; a value whose conversion fails (gives
  \<open>NaN\<close>) is ignored; the weight is the sum of the absolute values of the converted
  numbers, so a record without a numeric column has weight 0. The sum is the exact sum of
  the values below the overflow bound of the number format, and \<open>Infinity\<close> from there on
  (\<open>sumOfWeights\<close>). On the input \<open>id,name\<close>, \<open>1,Alice\<close> the weight is 1, \<open>Alice\<close> being
  ignored.
\<close>

theorem weight_is_sum_of_absolute_values:
  "rv_numericValues (valueRow index row) =
     filter (\<lambda>x. x \<noteq> NaN) (map (\<lambda>kv. parseFloat (stripNonNumeric (snd kv))) (entries row))
   \<and> rv_totalValue (valueRow index row) =
       sumOfWeights (map num_abs (rv_numericValues (valueRow index row)))
   \<and> stripNonNumeric v = filter (\<lambda>c. c \<in> set ''0123456789.-'') v
   \<and> ((\<forall>kv \<in> set (entries row). parseFloat (stripNonNumeric (snd kv)) = NaN) \<longrightarrow>
        rv_totalValue (valueRow index row) = Num 0)"
  using rv_totalValue_valueRow [of index row] rv_numericValues_valueRow [of index row]
    stripNonNumeric_charset [of v] no_numeric_weight [of row index]
  by simp

text \<open>
  The theorem at a row without a numeric column and at the row of \<open>id,name\<close>, \<open>1,Alice\<close>.
\<close>

theorem weight_is_sum_of_absolute_values_witness:
  "parseFloat (stripNonNumeric ''Alice'') = NaN
   \<and> rv_totalValue (valueRow 0 [(''name'', ''Alice'')]) = Num 0
   \<and> rv_totalValue (valueRow 0 (hd (parseCSV ''id,name\<newline>1,Alice''))) = Num 1
   \<and> rv_numericValues (valueRow 0 (hd (parseCSV ''id,name\<newline>1,Alice''))) = [Num 1]"
  using weight_is_sum_of_absolute_values [of 0 "[(''name'', ''Alice'')]" "''Alice''"]
        weight_is_sum_of_absolute_values [of 0 "hd (parseCSV ''id,name\<newline>1,Alice'')" "''Alice''"]
  by (simp add: scenarioC_rows scenarioC_entries alice_entries stripNonNumeric_def isDigit_def
        parseFloat_def digitsValue_def digitValue_def fromReal_small sumOfWeights_def
        overflowBound_def)

text \<open>
  Claim C7. In the report, \<open>rowAnalyses\<close> is ordered by descending weight, and the
  \<open>rowNumber\<close> of every entry is the 1-based position of its record in the input, not its
  position in the ranking: the entry carries the data and the weight of the input row at
  that position, and the row numbers of the report are exactly 1 to the number of rows,
  each once.
\<close>

theorem ranked_order_and_original_rowNumber:
  "sorted_wrt (\<lambda>a b. num_le (totalValue (metrics b)) (totalValue (metrics a)))
     (rowAnalyses (performParetoAnalysis rows))
   \<and> (\<forall>e \<in> set (rowAnalyses (performParetoAnalysis rows)).
        1 \<le> rowNumber e \<and> rowNumber e \<le> length rows
        \<and> data e = rows ! (rowNumber e - 1)
        \<and> totalValue (metrics e)
            = rv_totalValue (valueRow (rowNumber e - 1) (rows ! (rowNumber e - 1))))
   \<and> distinct (map rowNumber (rowAnalyses (performParetoAnalysis rows)))
   \<and> set (map rowNumber (rowAnalyses (performParetoAnalysis rows))) = {1..length rows}"
proof -
  let ?rs = "sortedRows rows"
  let ?ras = "analyseRows (grandTotalOf ?rs) (Num 0) ?rs"
  have "sorted_wrt (\<lambda>a b. num_le b a) (map rv_totalValue ?rs)"
    using sortedRows_descending [of rows] by (simp add: sorted_wrt_map)
  then have "sorted_wrt (\<lambda>a b. num_le b a) (map (\<lambda>e. totalValue (metrics e)) ?ras)"
    by (simp only: analyseRows_totalValue)
  then have desc: "sorted_wrt (\<lambda>a b. num_le (totalValue (metrics b)) (totalValue (metrics a))) ?ras"
    by (simp add: sorted_wrt_map)
  have each: "1 \<le> rowNumber e \<and> rowNumber e \<le> length rows
        \<and> data e = rows ! (rowNumber e - 1)
        \<and> totalValue (metrics e)
            = rv_totalValue (valueRow (rowNumber e - 1) (rows ! (rowNumber e - 1)))"
    if "e \<in> set ?ras" for e
  proof -
    from in_analyseRows_fields [OF that] obtain r where r: "r \<in> set ?rs"
      "rowNumber e = rv_rowNumber r" "data e = rv_data r"
      "totalValue (metrics e) = rv_totalValue r"
      by blast
    from r(1) have "r \<in> set (rowsWithValues rows)" by simp
    from in_rowsWithValues [OF this] have *: "1 \<le> rv_rowNumber r" "rv_rowNumber r \<le> length rows"
      "r = valueRow (rv_rowNumber r - 1) (rows ! (rv_rowNumber r - 1))"
      by simp_all
    have "rv_data r = rows ! (rv_rowNumber r - 1)"
      by (subst *(3)) simp
    with r * show ?thesis by metis
  qed
  have nums: "map rowNumber ?ras = map rv_rowNumber ?rs" by (rule analyseRows_rowNumber)
  show ?thesis
    unfolding rowAnalyses_performParetoAnalysis nums
    using desc each sortedRows_rowNumbers [of rows] by blast
qed

text \<open>
  The theorem on the input of claim C2: the first entry of the report is the second row
  of the input.
\<close>

theorem ranked_order_and_original_rowNumber_witness:
  "rowAnalyses (performParetoAnalysis (parseCSV ''name,val\<newline>A,10\<newline>B,90'')) ! 0
     \<in> set (rowAnalyses (performParetoAnalysis (parseCSV ''name,val\<newline>A,10\<newline>B,90'')))
   \<and> rowNumber (rowAnalyses (performParetoAnalysis (parseCSV ''name,val\<newline>A,10\<newline>B,90'')) ! 0) = 2
   \<and> data (rowAnalyses (performParetoAnalysis (parseCSV ''name,val\<newline>A,10\<newline>B,90'')) ! 0)
       = parseCSV ''name,val\<newline>A,10\<newline>B,90'' ! (2 - 1)"
  using ranked_order_and_original_rowNumber [of "parseCSV ''name,val\<newline>A,10\<newline>B,90''"]
  by (simp add: scenarioA_rows scenarioA_analyses)

text \<open>
  Claim C8. Whatever the tier, the recommendation list is the list of the messages of the
  tier, in the fixed order of the source, followed by the "top 20%" marker if and only if
  the cumulative share is at most 20. For the tier High the messages are: critical line
  with the percentage, prioritise resources, continuous tracking and, only if the weight
  is positive, seek optimisation; for Medium: contribution with the percentage, regular
  tracking, evaluate promotion; for Low: limited impact with the percentage, consider
  automation, evaluate resources. This holds of \<open>generateRecommendations\<close> on any
  arguments, and of every record of the report with respect to its own tier, contribution,
  weight and cumulative share.
\<close>

theorem recommendations_order_and_top20_marker:
  "generateRecommendations row cls c cp =
     (if cls = ''Alta Prioridad'' then
        [CriticalLine (toFixed1 c), PrioritizeResources, ContinuousTracking]
        @ (if num_lt (Num 0) (rv_totalValue row) then [SeekOptimization] else [])
      else if cls = ''Media Prioridad'' then
        [Contributes (toFixed1 c), RegularTracking, EvaluatePromotion]
      else [LimitedImpact (toFixed1 c), ConsiderAutomation, EvaluateResources])
     @ (if num_le cp (Num 20) then [Top20] else [])
   \<and> (Top20 \<in> set (generateRecommendations row cls c cp) \<longleftrightarrow> num_le cp (Num 20))
   \<and> (last (generateRecommendations row cls c cp) = Top20 \<longleftrightarrow> num_le cp (Num 20))
   \<and> (\<forall>e \<in> set (rowAnalyses (performParetoAnalysis rows)).
        recommendations e =
          (if classification e = ''Alta Prioridad'' then
             [CriticalLine (toFixed1 (contribution (metrics e))), PrioritizeResources,
              ContinuousTracking]
             @ (if num_lt (Num 0) (totalValue (metrics e)) then [SeekOptimization] else [])
           else if classification e = ''Media Prioridad'' then
             [Contributes (toFixed1 (contribution (metrics e))), RegularTracking,
              EvaluatePromotion]
           else [LimitedImpact (toFixed1 (contribution (metrics e))), ConsiderAutomation,
                 EvaluateResources])
          @ (if num_le (cumulativePercentage (metrics e)) (Num 20) then [Top20] else []))"
proof -
  have fn: "generateRecommendations row cls c cp =
     (if cls = ''Alta Prioridad'' then
        [CriticalLine (toFixed1 c), PrioritizeResources, ContinuousTracking]
        @ (if num_lt (Num 0) (rv_totalValue row) then [SeekOptimization] else [])
      else if cls = ''Media Prioridad'' then
        [Contributes (toFixed1 c), RegularTracking, EvaluatePromotion]
      else [LimitedImpact (toFixed1 c), ConsiderAutomation, EvaluateResources])
     @ (if num_le cp (Num 20) then [Top20] else [])" for row cls c cp
    by (simp add: generateRecommendations_def Let_def)
  have marker: "(Top20 \<in> set (generateRecommendations row cls c cp) \<longleftrightarrow> num_le cp (Num 20))
      \<and> (last (generateRecommendations row cls c cp) = Top20 \<longleftrightarrow> num_le cp (Num 20))"
    by (simp add: fn)
  have each: "recommendations e =
          (if classification e = ''Alta Prioridad'' then
             [CriticalLine (toFixed1 (contribution (metrics e))), PrioritizeResources,
              ContinuousTracking]
             @ (if num_lt (Num 0) (totalValue (metrics e)) then [SeekOptimization] else [])
           else if classification e = ''Media Prioridad'' then
             [Contributes (toFixed1 (contribution (metrics e))), RegularTracking,
              EvaluatePromotion]
           else [LimitedImpact (toFixed1 (contribution (metrics e))), ConsiderAutomation,
                 EvaluateResources])
          @ (if num_le (cumulativePercentage (metrics e)) (Num 20) then [Top20] else [])"
    if "e \<in> set (rowAnalyses (performParetoAnalysis rows))" for e
  proof -
    from that obtain c' r where e: "e = analyseRow (grandTotalOf (sortedRows rows)) c' r"
      unfolding rowAnalyses_performParetoAnalysis by (blast dest: in_analyseRows)
    show ?thesis
      unfolding e using recommendations_analyseRow [of "grandTotalOf (sortedRows rows)" c' r]
      by (simp only: fn)
  qed
  from fn marker each show ?thesis by blast
qed

text \<open>
  The theorem at a row of weight 0, whose cumulative share 0 brings the marker after the
  three messages of the tier High, and on the input of claim C2, where no record has a
  cumulative share of at most 20.
\<close>

theorem recommendations_order_and_top20_marker_witness:
  "rowAnalyses (performParetoAnalysis [[(''name'', ''Alice'')]]) ! 0
     \<in> set (rowAnalyses (performParetoAnalysis [[(''name'', ''Alice'')]]))
   \<and> num_le (cumulativePercentage
        (metrics (rowAnalyses (performParetoAnalysis [[(''name'', ''Alice'')]]) ! 0))) (Num 20)
   \<and> recommendations (rowAnalyses (performParetoAnalysis [[(''name'', ''Alice'')]]) ! 0) =
       [CriticalLine ''0.0'', PrioritizeResources, ContinuousTracking, Top20]
   \<and> map recommendations (rowAnalyses (performParetoAnalysis
         [[(''name'', ''A''), (''val'', ''10'')], [(''name'', ''B''), (''val'', ''90'')]])) =
       [[Contributes ''90.0'', RegularTracking, EvaluatePromotion],
        [LimitedImpact ''10.0'', ConsiderAutomation, EvaluateResources]]"
  using recommendations_order_and_top20_marker
          [of "hd (sortedRows [[(''name'', ''Alice'')]])" "''Alta Prioridad''" "Num 0" "Num 0"
              "[[(''name'', ''Alice'')]]"]
        recommendations_order_and_top20_marker
          [of "hd (sortedRows [[(''name'', ''Alice'')]])" "''Media Prioridad''" "Num 90" "Num 90"
              "[[(''name'', ''A''), (''val'', ''10'')], [(''name'', ''B''), (''val'', ''90'')]]"]
  by (simp add: alice_analyses alice_sorted scenarioA_analyses toFixedReal_examples)

text \<open>
  Claim C9. Records of equal weight appear in the ranked output in ascending order of
  their position in the input: of two entries of the report with the same weight, the
  earlier one has the smaller \<open>rowNumber\<close>. This rests on the stability that the language
  requires of \<open>Array.prototype.sort\<close>.
\<close>

theorem equal_weights_keep_input_order:
  assumes "i < j" and "j < length (rowAnalyses (performParetoAnalysis rows))"
    and "totalValue (metrics (rowAnalyses (performParetoAnalysis rows) ! i))
       = totalValue (metrics (rowAnalyses (performParetoAnalysis rows) ! j))"
  shows "rowNumber (rowAnalyses (performParetoAnalysis rows) ! i)
       < rowNumber (rowAnalyses (performParetoAnalysis rows) ! j)"
proof -
  let ?rs = "sortedRows rows"
  from assms(2) have j: "j < length ?rs"
    by (simp add: rowAnalyses_performParetoAnalysis)
  with assms(1) have i: "i < length ?rs" by simp
  from assms(3) have "rv_totalValue (?rs ! i) = rv_totalValue (?rs ! j)"
    unfolding rowAnalyses_performParetoAnalysis
    by (simp only: nth_analyseRows_totalValue [OF i] nth_analyseRows_totalValue [OF j])
  from sortedRows_ties [OF assms(1) j this] show ?thesis
    unfolding rowAnalyses_performParetoAnalysis
    by (simp only: nth_analyseRows_rowNumber [OF i] nth_analyseRows_rowNumber [OF j])
qed

text \<open>
  The theorem at three rows of weights 5, 7 and 5: the report lists row 2, then row 1, then
  row 3.
\<close>

theorem equal_weights_keep_input_order_witness:
  "(1::nat) < 2
   \<and> 2 < length (rowAnalyses (performParetoAnalysis
            [[(''v'', ''5'')], [(''v'', ''7'')], [(''v'', ''5'')]]))
   \<and> totalValue (metrics (rowAnalyses (performParetoAnalysis
        [[(''v'', ''5'')], [(''v'', ''7'')], [(''v'', ''5'')]]) ! 1))
     = totalValue (metrics (rowAnalyses (performParetoAnalysis
        [[(''v'', ''5'')], [(''v'', ''7'')], [(''v'', ''5'')]]) ! 2))
   \<and> rowNumber (rowAnalyses (performParetoAnalysis
        [[(''v'', ''5'')], [(''v'', ''7'')], [(''v'', ''5'')]]) ! 1)
     < rowNumber (rowAnalyses (performParetoAnalysis
        [[(''v'', ''5'')], [(''v'', ''7'')], [(''v'', ''5'')]]) ! 2)
   \<and> map rowNumber (rowAnalyses (performParetoAnalysis
        [[(''v'', ''5'')], [(''v'', ''7'')], [(''v'', ''5'')]])) = [2, 1, 3]"
  using equal_weights_keep_input_order [of 1 2 "[[(''v'', ''5'')], [(''v'', ''7'')], [(''v'', ''5'')]]"]
  by (simp add: rowAnalyses_performParetoAnalysis tie_sorted analyse_eval)

text \<open>
  Claim C10. The counts of the summary partition the output: the numbers of High, Medium
  and Low records add up to \<open>totalRows\<close>, \<open>totalRows\<close> is the number of parsed records, and
  every record carries one of the three labels.
\<close>

theorem summary_counts_partition:
  "highPriority (summary (performParetoAnalysis rows))
     + mediumPriority (summary (performParetoAnalysis rows))
     + lowPriority (summary (performParetoAnalysis rows))
   = totalRows (summary (performParetoAnalysis rows))
   \<and> totalRows (summary (performParetoAnalysis rows)) = length rows
   \<and> length (rowAnalyses (performParetoAnalysis rows)) = length rows
   \<and> list_all (\<lambda>e. classification e \<in> {''Alta Prioridad'', ''Media Prioridad'', ''Baja Prioridad''})
        (rowAnalyses (performParetoAnalysis rows))"
proof -
  let ?ras = "analyseRows (grandTotalOf (sortedRows rows)) (Num 0) (sortedRows rows)"
  have labels: "list_all (\<lambda>e. classification e
      \<in> {''Alta Prioridad'', ''Media Prioridad'', ''Baja Prioridad''}) ?ras"
    by (rule list_all_analyseRows)
  have "countClass ''Alta Prioridad'' ?ras + countClass ''Media Prioridad'' ?ras
     + countClass ''Baja Prioridad'' ?ras = length ?ras"
    by (rule count_three [OF labels])
  with labels show ?thesis
    by (simp add: performParetoAnalysis_def Let_def)
qed

end
